theory Spec2Isabelle
  imports Main "HOL-Library.Multiset" "HOL-Library.AList"
begin

section \<open>Data model of the game manager\<close>

text \<open>
  Player documents of the \<^verbatim>\<open>players\<close> collection. Role ids and player ids are
  JavaScript strings; a role that is \<^verbatim>\<open>null\<close> (before assignment, after a reset) is
  \<open>None\<close>. A collection snapshot is the list of its documents, each a pair of the
  document id and the data, in the order \<^verbatim>\<open>forEach\<close> visits them.
\<close>

record player =
  name :: string
  isHost :: bool
  isAlive :: bool
  role :: "string option"
  roleReadConfirmed :: bool

type_synonym players_snap = "(string \<times> player) list"

section \<open>Win condition (checkWinCondition, getAliveBug)\<close>

text \<open>
  The body of the \<^verbatim>\<open>forEach\<close> of checkWinCondition: a living player with role
  \<^verbatim>\<open>'impostor'\<close> increments aliveImpostors, every other living player increments
  aliveCitizens. The accumulator is the pair (aliveImpostors, aliveCitizens).
\<close>

definition countAliveStep :: "nat \<times> nat \<Rightarrow> string \<times> player \<Rightarrow> nat \<times> nat" where
  "countAliveStep acc d =
     (case acc of (aliveImpostors, aliveCitizens) \<Rightarrow>
        if isAlive (snd d) then
          (if role (snd d) = Some ''impostor'' then (aliveImpostors + 1, aliveCitizens)
           else (aliveImpostors, aliveCitizens + 1))
        else (aliveImpostors, aliveCitizens))"

text \<open>getAliveBug: the last living player with role \<^verbatim>\<open>'bug'\<close>, or null.\<close>

definition getAliveBug :: "players_snap \<Rightarrow> player option" where
  "getAliveBug playersSnap =
     foldl (\<lambda>bug d. if isAlive (snd d) \<and> role (snd d) = Some ''bug'' then Some (snd d) else bug)
       None playersSnap"

definition checkWinCondition :: "players_snap \<Rightarrow> string option" where
  "checkWinCondition playersSnap =
     (case foldl countAliveStep (0, 0) playersSnap of (aliveImpostors, aliveCitizens) \<Rightarrow>
        (case (if aliveImpostors \<ge> aliveCitizens \<and> aliveImpostors > 0 then Some ''impostor''
               else if aliveImpostors = 0 then Some ''citizen''
               else None) of
           None \<Rightarrow> None
         | Some winner \<Rightarrow>
             (case getAliveBug playersSnap of
                Some bug \<Rightarrow> Some ''bug''
              | None \<Rightarrow> Some winner)))"

text \<open>Counting functions used to state the properties of the evaluator.\<close>

fun isAliveWithRole :: "string \<Rightarrow> string \<times> player \<Rightarrow> bool" where
  "isAliveWithRole r d = (isAlive (snd d) \<and> role (snd d) = Some r)"

fun isAliveNonImpostor :: "string \<times> player \<Rightarrow> bool" where
  "isAliveNonImpostor d = (isAlive (snd d) \<and> role (snd d) \<noteq> Some ''impostor'')"

definition aliveImpostorCount :: "players_snap \<Rightarrow> nat" where
  "aliveImpostorCount ps = length (filter (isAliveWithRole ''impostor'') ps)"

definition aliveNonImpostorCount :: "players_snap \<Rightarrow> nat" where
  "aliveNonImpostorCount ps = length (filter isAliveNonImpostor ps)"

definition aliveBugCount :: "players_snap \<Rightarrow> nat" where
  "aliveBugCount ps = length (filter (isAliveWithRole ''bug'') ps)"

definition aliveCount :: "players_snap \<Rightarrow> nat" where
  "aliveCount ps = length (filter (\<lambda>d. isAlive (snd d)) ps)"

text \<open>
  The count of living citizen-aligned players in the words of the specification:
  every living player that is neither an impostor nor a bug.
\<close>

definition specAliveCitizenAlignedCount :: "players_snap \<Rightarrow> nat" where
  "specAliveCitizenAlignedCount ps =
     length (filter (\<lambda>d. isAliveNonImpostor d \<and> role (snd d) \<noteq> Some ''bug'') ps)"

definition mkPlayer :: "string \<Rightarrow> bool \<Rightarrow> string option \<Rightarrow> player" where
  "mkPlayer n alive r =
     \<lparr>name = n, isHost = False, isAlive = alive, role = r, roleReadConfirmed = True\<rparr>"

definition rosterImpostorTwoBugs :: players_snap where
  "rosterImpostorTwoBugs =
     [(''p1'', mkPlayer ''Ann'' True (Some ''impostor'')),
      (''p2'', mkPlayer ''Bob'' True (Some ''bug'')),
      (''p3'', mkPlayer ''Cid'' True (Some ''bug''))]"

definition rosterImpostorCitizenBug :: players_snap where
  "rosterImpostorCitizenBug =
     [(''p1'', mkPlayer ''Ann'' True (Some ''impostor'')),
      (''p2'', mkPlayer ''Bob'' True (Some ''citizen'')),
      (''p3'', mkPlayer ''Cid'' True (Some ''bug''))]"

definition rosterImpostorBug :: players_snap where
  "rosterImpostorBug =
     [(''p1'', mkPlayer ''Ann'' True (Some ''impostor'')),
      (''p2'', mkPlayer ''Bob'' True (Some ''bug'')),
      (''p3'', mkPlayer ''Cid'' False (Some ''citizen''))]"

definition rosterTwoImpostorsThreeCitizens :: players_snap where
  "rosterTwoImpostorsThreeCitizens =
     [(''p1'', mkPlayer ''Ann'' True (Some ''impostor'')),
      (''p2'', mkPlayer ''Bob'' True (Some ''impostor'')),
      (''p3'', mkPlayer ''Cid'' True (Some ''citizen'')),
      (''p4'', mkPlayer ''Dee'' True (Some ''engineer'')),
      (''p5'', mkPlayer ''Eve'' True (Some ''doctor''))]"

definition rosterTwoImpostorsOneCitizen :: players_snap where
  "rosterTwoImpostorsOneCitizen =
     [(''p1'', mkPlayer ''Ann'' True (Some ''impostor'')),
      (''p2'', mkPlayer ''Bob'' True (Some ''impostor'')),
      (''p3'', mkPlayer ''Cid'' True (Some ''citizen'')),
      (''p4'', mkPlayer ''Dee'' False (Some ''engineer'')),
      (''p5'', mkPlayer ''Eve'' False (Some ''doctor''))]"

definition rosterNoImpostor :: players_snap where
  "rosterNoImpostor =
     [(''p1'', mkPlayer ''Ann'' False (Some ''impostor'')),
      (''p3'', mkPlayer ''Cid'' True (Some ''citizen'')),
      (''p4'', mkPlayer ''Dee'' True (Some ''engineer''))]"

section \<open>Role assignment (assignRoles)\<close>

text \<open>
  \<^verbatim>\<open>for (let i = 0; i < count; i++) roles.push(role)\<close>: the counts are JavaScript
  numbers read from the settings document (the lobby produces them with parseInt), so
  they are integers here and a count that is not positive pushes nothing.
\<close>

function pushRole :: "int \<Rightarrow> int \<Rightarrow> string \<Rightarrow> string list \<Rightarrow> string list" where
  "pushRole i cnt r roles = (if i < cnt then pushRole (i + 1) cnt r (roles @ [r]) else roles)"
  by pat_completeness auto
termination
  by (relation "measure (\<lambda>(i, cnt, r, roles). nat (cnt - i))") auto

declare pushRole.simps [simp del]

text \<open>The outer loop over \<^verbatim>\<open>Object.entries(roleSettings)\<close>.\<close>

fun expandRoles :: "(string \<times> int) list \<Rightarrow> string list \<Rightarrow> string list" where
  "expandRoles [] roles = roles"
| "expandRoles ((r, cnt) # rest) roles = expandRoles rest (pushRole 0 cnt r roles)"

text \<open>\<^verbatim>\<open>while (roles.length < playerCount) roles.push('citizen')\<close>\<close>

function padCitizen :: "nat \<Rightarrow> string list \<Rightarrow> string list" where
  "padCitizen playerCount roles =
     (if length roles < playerCount then padCitizen playerCount (roles @ [''citizen'']) else roles)"
  by pat_completeness auto
termination
  by (relation "measure (\<lambda>(playerCount, roles). playerCount - length roles)") auto

declare padCitizen.simps [simp del]

definition assignRoles :: "nat \<Rightarrow> (string \<times> int) list \<Rightarrow> string list" where
  "assignRoles playerCount roleSettings =
     take playerCount (padCitizen playerCount (expandRoles roleSettings []))"

text \<open>The configured number of roles and the multiset the role counts describe.\<close>

definition roleTotal :: "(string \<times> int) list \<Rightarrow> nat" where
  "roleTotal roleSettings = sum_list (map (\<lambda>e. nat (snd e)) roleSettings)"

definition roleMultiset :: "(string \<times> int) list \<Rightarrow> string multiset" where
  "roleMultiset roleSettings =
     sum_list (map (\<lambda>e. replicate_mset (nat (snd e)) (fst e)) roleSettings)"

definition defaultRoles :: "(string \<times> int) list" where
  "defaultRoles =
     [(''citizen'', 4), (''impostor'', 2), (''engineer'', 1), (''doctor'', 1),
      (''fallen_angel'', 1), (''guard_duty'', 0), (''impostor_follower'', 0), (''bug'', 0)]"

section \<open>The stores and the manager's state\<close>

text \<open>
  Modelled from the spec: the phase constants \<^verbatim>\<open>GAME_PHASES\<close> of game-states.js, a
  file that is not among the sources; the Phase enum of the specification lists them.
\<close>

datatype phase =
  LOBBY | ROLE_REVEAL | MEETING_DISCUSSION | VOTING | VOTE_RESULT | BREAK
  | NIGHT_SPECIAL | NIGHT_IMPOSTOR | MORNING_ANNOUNCEMENT | GAME_RESULT

text \<open>
  The values the manager puts into the additional data of a state write: a string, a
  list of ids, or the vote counts (an object from target id to count).
\<close>

datatype jsval = JString string | JStringList "string list" | JCounts "(string \<times> nat) list"

text \<open>
  \<^verbatim>\<open>transitionId\<close> is the phase (or \<^verbatim>\<open>RESET\<close>) followed by the time of the write.
\<close>

datatype transition_id = Transition phase nat | Reset nat

text \<open>
  The document \<^verbatim>\<open>gameState/current\<close>. The five fields every write sets are record
  fields; the fields that come from additional data (result, tiedPlayers, voteCounts,
  victimId, victimName, winner, victims) are the association list \<open>payload\<close>.
\<close>

record game_state =
  phase :: phase
  version :: int
  transitionId :: transition_id
  updatedAt :: nat
  hostUid :: string
  payload :: "(string \<times> jsval) list"

text \<open>\<^verbatim>\<open>this.currentPlayer\<close>, set by joinRoom and restoreSession, null before.\<close>

record current_player =
  cpId :: string
  cpName :: string
  cpIsHost :: bool
  cpRole :: "string option"

record room =
  status :: string
  day :: nat

record night_action =
  actionType :: string
  targetId :: string
  submittedAt :: "nat option"

record death_entry =
  cause :: string
  deathDay :: nat
  deathRole :: "string option"
  deathTimestamp :: nat

record vote_history_entry =
  historyDay :: nat
  voterId :: string
  historyTargetId :: string
  historyTimestamp :: nat

record settings =
  roles :: "(string \<times> int) list"
  timerMeeting :: int
  timerVote :: int
  timerBreak :: int

text \<open>
  One client's manager together with the room's documents: the manager's fields
  (\<open>currentPlayer\<close>, \<open>activeTimer\<close>: the running countdown with its remaining seconds and
  phase), the clock \<open>now\<close> read by \<^verbatim>\<open>Date.now()\<close> and \<^verbatim>\<open>serverTimestamp()\<close>, the
  Firestore documents and collections of the room, and the realtime database entries.
  A vote document is its voter id and target id.
\<close>

record world =
  currentPlayer :: "current_player option"
  activeTimer :: "(int \<times> string) option"
  now :: nat
  roomDoc :: "room option"
  playersCol :: players_snap
  settingsDoc :: "settings option"
  gameStateDoc :: "game_state option"
  votesCol :: "(string \<times> string) list"
  nightActionsCol :: "(string \<times> night_action) list"
  deathLogCol :: "(string \<times> death_entry) list"
  voteHistoryCol :: "vote_history_entry list"
  rtdbTimer :: "(int \<times> string) option"
  presence :: "string list"

text \<open>
  What the code can raise on the contents of the stores: a property read on null or
  undefined (\<open>TypeError\<close>), \<^verbatim>\<open>updateDoc\<close> on a document that does not exist
  (\<open>NotFound\<close>), and a document reference built from an undefined id (\<open>InvalidPath\<close>).
  An operation returns \<open>Inr\<close> with the world it leaves (and its return value, if it has
  one), or \<open>Inl\<close> with the error and the world as it is when the error is raised: the
  writes made before stay.
\<close>

datatype error = TypeError | NotFound | InvalidPath

definition andThen :: "'e + 'a \<Rightarrow> ('a \<Rightarrow> 'e + 'b) \<Rightarrow> 'e + 'b" where
  "andThen m f = (case m of Inl e \<Rightarrow> Inl e | Inr x \<Rightarrow> f x)"

text \<open>\<^verbatim>\<open>updateDoc\<close> on a document of a collection that is known to exist.\<close>

definition updateData :: "string \<Rightarrow> ('a \<Rightarrow> 'a) \<Rightarrow> (string \<times> 'a) list \<Rightarrow> (string \<times> 'a) list" where
  "updateData k f col = map (\<lambda>d. if fst d = k then (fst d, f (snd d)) else d) col"

text \<open>\<^verbatim>\<open>snap.forEach(doc => deleteDoc(doc.ref))\<close>\<close>

definition deleteAll :: "(string \<times> 'a) list \<Rightarrow> (string \<times> 'a) list \<Rightarrow> (string \<times> 'a) list" where
  "deleteAll snap col = foldl (\<lambda>c d. AList.delete (fst d) c) col snap"

section \<open>State management (setState, getState, resetGameState)\<close>

text \<open>
  One field of a merge write (\<^verbatim>\<open>setDoc\<close> with \<^verbatim>\<open>merge: true\<close>). A string or an
  array replaces what the document holds. A map is merged key by key into a map the
  document already holds under that field, so keys the write does not name stay; an empty
  map replaces the field. The only map the manager writes is \<^verbatim>\<open>voteCounts\<close>.
\<close>

fun mergeField :: "jsval option \<Rightarrow> jsval \<Rightarrow> jsval" where
  "mergeField (Some (JCounts stored)) (JCounts written) =
     (if written = [] then JCounts [] else JCounts (AList.merge stored written))"
| "mergeField stored written = written"

definition mergePayload :: "(string \<times> jsval) list \<Rightarrow> (string \<times> jsval) list \<Rightarrow> (string \<times> jsval) list" where
  "mergePayload stored additionalData =
     foldl (\<lambda>p e. AList.update (fst e) (mergeField (map_of p (fst e)) (snd e)) p)
       stored additionalData"

text \<open>
  The merge write of setState: phase, transitionId, updatedAt and hostUid are replaced,
  \<^verbatim>\<open>increment(1)\<close> adds one to the stored version (and stores 1 where there is none),
  and the additional data is merged field by field into the fields the document holds.
\<close>

definition mergeGameState ::
    "game_state option \<Rightarrow> phase \<Rightarrow> nat \<Rightarrow> string \<Rightarrow> (string \<times> jsval) list \<Rightarrow> game_state" where
  "mergeGameState old ph t uid additionalData =
     \<lparr>phase = ph,
      version = (case old of None \<Rightarrow> 1 | Some g \<Rightarrow> version g + 1),
      transitionId = Transition ph t,
      updatedAt = t,
      hostUid = uid,
      payload = mergePayload (case old of None \<Rightarrow> [] | Some g \<Rightarrow> payload g) additionalData\<rparr>"

definition setState :: "phase \<Rightarrow> (string \<times> jsval) list \<Rightarrow> world \<Rightarrow> error \<times> world + world" where
  "setState ph additionalData w =
     (case currentPlayer w of
        None \<Rightarrow> Inl (TypeError, w)
      | Some cp \<Rightarrow>
          if \<not> cpIsHost cp then Inr w
          else Inr (w\<lparr>gameStateDoc :=
                 Some (mergeGameState (gameStateDoc w) ph (now w) (cpId cp) additionalData)\<rparr>))"

definition getState :: "world \<Rightarrow> game_state option" where
  "getState w = gameStateDoc w"

text \<open>The player update of resetGameState, one \<^verbatim>\<open>updateDoc\<close> per document read.\<close>

definition resetPlayer :: "player \<Rightarrow> player" where
  "resetPlayer p = p\<lparr>isAlive := True, role := None, roleReadConfirmed := False\<rparr>"

definition resetPlayers :: "players_snap \<Rightarrow> players_snap \<Rightarrow> players_snap" where
  "resetPlayers snap col = foldl (\<lambda>c d. updateData (fst d) resetPlayer c) col snap"

text \<open>
  resetGameState. Everything after the host check runs inside \<^verbatim>\<open>try\<close>: the only step
  that can fail on the contents of the stores is \<^verbatim>\<open>updateDoc(roomRef, ...)\<close> on a room
  document that does not exist; the \<^verbatim>\<open>catch\<close> logs it and the function returns with
  the writes made so far. The last write has no merge option: it replaces the document.
\<close>

definition resetGameState :: "world \<Rightarrow> error \<times> world + world" where
  "resetGameState w =
     (case currentPlayer w of
        None \<Rightarrow> Inl (TypeError, w)
      | Some cp \<Rightarrow>
          if \<not> cpIsHost cp then Inr w
          else
            let w1 = w\<lparr>playersCol := resetPlayers (playersCol w) (playersCol w)\<rparr>;
                w2 = w1\<lparr>votesCol := deleteAll (votesCol w1) (votesCol w1)\<rparr>;
                w3 = w2\<lparr>nightActionsCol := deleteAll (nightActionsCol w2) (nightActionsCol w2)\<rparr>;
                w4 = w3\<lparr>deathLogCol := deleteAll (deathLogCol w3) (deathLogCol w3)\<rparr>;
                w5 = w4\<lparr>voteHistoryCol := []\<rparr>
            in (case roomDoc w5 of
                  None \<Rightarrow> Inr w5
                | Some r \<Rightarrow>
                    Inr (w5\<lparr>roomDoc := Some (r\<lparr>day := 1, status := ''lobby''\<rparr>),
                            rtdbTimer := None,
                            gameStateDoc :=
                              Some \<lparr>phase = LOBBY, version = 0, transitionId = Reset (now w),
                                    updatedAt = now w, hostUid = cpId cp, payload = []\<rparr>\<rparr>)))"

section \<open>Room management (kickPlayer, updateSettings)\<close>

definition kickPlayer :: "string \<Rightarrow> world \<Rightarrow> error \<times> world + world" where
  "kickPlayer playerId w =
     (case currentPlayer w of
        None \<Rightarrow> Inl (TypeError, w)
      | Some cp \<Rightarrow>
          if \<not> cpIsHost cp then Inr w
          else Inr (w\<lparr>playersCol := AList.delete playerId (playersCol w),
                       presence := removeAll playerId (presence w)\<rparr>))"

definition updateSettings :: "settings \<Rightarrow> world \<Rightarrow> error \<times> world + world" where
  "updateSettings s w =
     (case currentPlayer w of
        None \<Rightarrow> Inl (TypeError, w)
      | Some cp \<Rightarrow>
          if \<not> cpIsHost cp then Inr w
          else (case settingsDoc w of
                  None \<Rightarrow> Inl (NotFound, w)
                | Some old \<Rightarrow> Inr (w\<lparr>settingsDoc := Some s\<rparr>)))"

section \<open>Timers\<close>

text \<open>
  startTimer replaces the running countdown. The countdown itself (one tick a second)
  is not part of this development.
\<close>

definition startTimer :: "int \<Rightarrow> string \<Rightarrow> world \<Rightarrow> world" where
  "startTimer duration ph w = w\<lparr>activeTimer := Some (duration, ph)\<rparr>"

definition startMeetingTimer :: "world \<Rightarrow> error \<times> world + world" where
  "startMeetingTimer w =
     (case currentPlayer w of
        None \<Rightarrow> Inl (TypeError, w)
      | Some cp \<Rightarrow>
          if \<not> cpIsHost cp then Inr w
          else (case settingsDoc w of
                  None \<Rightarrow> Inl (TypeError, w)
                | Some s \<Rightarrow>
                    Inr (startTimer (timerMeeting s) ''meeting''
                           (w\<lparr>rtdbTimer := Some (timerMeeting s, ''meeting'')\<rparr>))))"

definition startBreakTimer :: "world \<Rightarrow> error \<times> world + world" where
  "startBreakTimer w =
     (case currentPlayer w of
        None \<Rightarrow> Inl (TypeError, w)
      | Some cp \<Rightarrow>
          if \<not> cpIsHost cp then Inr w
          else (case settingsDoc w of
                  None \<Rightarrow> Inl (TypeError, w)
                | Some s \<Rightarrow>
                    Inr (startTimer (timerBreak s) ''break''
                           (w\<lparr>rtdbTimer := Some (timerBreak s, ''break'')\<rparr>))))"

definition startVotingTimer :: "world \<Rightarrow> error \<times> world + world" where
  "startVotingTimer w =
     (case currentPlayer w of
        None \<Rightarrow> Inl (TypeError, w)
      | Some cp \<Rightarrow>
          if \<not> cpIsHost cp then Inr w
          else (case settingsDoc w of
                  None \<Rightarrow> Inl (TypeError, w)
                | Some s \<Rightarrow>
                    Inr (startTimer (timerVote s) ''voting''
                           (w\<lparr>votesCol := deleteAll (votesCol w) (votesCol w),
                              rtdbTimer := Some (timerVote s, ''voting'')\<rparr>))))"

section \<open>Transitions\<close>

definition transitionToVoting :: "world \<Rightarrow> error \<times> world + world" where
  "transitionToVoting w =
     (case currentPlayer w of
        None \<Rightarrow> Inl (TypeError, w)
      | Some cp \<Rightarrow>
          if \<not> cpIsHost cp then Inr w
          else andThen (setState VOTING [] w) startVotingTimer)"

definition transitionToBreak :: "world \<Rightarrow> error \<times> world + world" where
  "transitionToBreak w =
     (case currentPlayer w of
        None \<Rightarrow> Inl (TypeError, w)
      | Some cp \<Rightarrow>
          if \<not> cpIsHost cp then Inr w
          else andThen (setState BREAK [] w) startBreakTimer)"

definition transitionToNight :: "world \<Rightarrow> error \<times> world + world" where
  "transitionToNight w =
     (case currentPlayer w of
        None \<Rightarrow> Inl (TypeError, w)
      | Some cp \<Rightarrow>
          if \<not> cpIsHost cp then Inr w
          else setState NIGHT_SPECIAL []
                 (w\<lparr>nightActionsCol := deleteAll (nightActionsCol w) (nightActionsCol w)\<rparr>))"

section \<open>Role reveal (startGame, shuffleArray, checkAllPlayersReadRole)\<close>

text \<open>
  shuffleArray: \<^verbatim>\<open>for (let i = shuffled.length - 1; i > 0; i--)\<close> swaps positions
  \<open>i\<close> and \<open>j\<close>, where \<open>j = Math.floor(Math.random() * (i + 1))\<close> is a number from 0 to
  \<open>i\<close>. The random draws are the parameter \<open>rnd\<close>, one draw for each \<open>i\<close>.
\<close>

fun shuffleLoop :: "(nat \<Rightarrow> nat) \<Rightarrow> nat \<Rightarrow> 'a list \<Rightarrow> 'a list" where
  "shuffleLoop rnd 0 shuffled = shuffled"
| "shuffleLoop rnd (Suc i) shuffled =
     (let j = rnd (Suc i) mod (Suc i + 1)
      in shuffleLoop rnd i (shuffled[Suc i := shuffled ! j, j := shuffled ! Suc i]))"

definition shuffleArray :: "(nat \<Rightarrow> nat) \<Rightarrow> 'a list \<Rightarrow> 'a list" where
  "shuffleArray rnd array = shuffleLoop rnd (length array - 1) array"

text \<open>
  The loop of startGame that writes \<open>shuffledRoles[i]\<close> to player \<open>i\<close>. Both lists have
  the length of the player list (assignRoles returns that many roles and the shuffle
  keeps the length), so the loop is a walk over the two lists side by side.
\<close>

definition writeRoles :: "(string \<times> player) list \<Rightarrow> string list \<Rightarrow> players_snap \<Rightarrow> players_snap" where
  "writeRoles snap shuffledRoles col =
     foldl (\<lambda>c e. updateData (fst (fst e))
                    (\<lambda>p. p\<lparr>role := Some (snd e), roleReadConfirmed := False\<rparr>) c)
       col (zip snap shuffledRoles)"

definition startGame :: "(nat \<Rightarrow> nat) \<Rightarrow> world \<Rightarrow> error \<times> world + world" where
  "startGame rnd w =
     (case currentPlayer w of
        None \<Rightarrow> Inl (TypeError, w)
      | Some cp \<Rightarrow>
          if \<not> cpIsHost cp then Inr w
          else (case settingsDoc w of
                  None \<Rightarrow> Inl (TypeError, w)
                | Some s \<Rightarrow>
                    let players = playersCol w;
                        shuffledRoles = shuffleArray rnd (assignRoles (length players) (roles s));
                        w1 = w\<lparr>playersCol := writeRoles players shuffledRoles (playersCol w)\<rparr>
                    in (case roomDoc w1 of
                          None \<Rightarrow> Inl (NotFound, w1)
                        | Some r \<Rightarrow>
                            setState ROLE_REVEAL []
                              (w1\<lparr>roomDoc := Some (r\<lparr>status := ''ingame''\<rparr>)\<rparr>))))"

text \<open>
  The aggregation checks return their boolean. In \<^verbatim>\<open>allRead && this.currentPlayer.isHost\<close>
  the manager's player is read only when the first operand is true.
\<close>

definition checkAllPlayersReadRole :: "world \<Rightarrow> error \<times> world + world \<times> bool" where
  "checkAllPlayersReadRole w =
     (let allRead = foldl (\<lambda>a d. if \<not> roleReadConfirmed (snd d) then False else a)
                      True (playersCol w)
      in if \<not> allRead then Inr (w, allRead)
         else (case currentPlayer w of
                 None \<Rightarrow> Inl (TypeError, w)
               | Some cp \<Rightarrow>
                   if \<not> cpIsHost cp then Inr (w, allRead)
                   else andThen (andThen (setState MEETING_DISCUSSION [] w) startMeetingTimer)
                          (\<lambda>w'. Inr (w', allRead))))"

section \<open>Voting (checkAllVoted, processVotes, archiveVotes, proceedAfterVote)\<close>

text \<open>
  The vote count object, with its keys in the order they were first written (the order of
  \<^verbatim>\<open>Object.entries\<close> for keys that are not array indices, as player ids are):
  \<^verbatim>\<open>voteCount[targetId] = (voteCount[targetId] || 0) + 1\<close>.
\<close>

definition countVote :: "(string \<times> nat) list \<Rightarrow> string \<times> string \<Rightarrow> (string \<times> nat) list" where
  "countVote voteCount d =
     AList.update (snd d)
       ((case map_of voteCount (snd d) of None \<Rightarrow> 0 | Some c \<Rightarrow> c) + 1) voteCount"

text \<open>The plurality loop; the accumulator is the pair (maxVotes, targets).\<close>

definition pluralityStep :: "nat \<times> string list \<Rightarrow> string \<times> nat \<Rightarrow> nat \<times> string list" where
  "pluralityStep acc e =
     (case acc of (maxVotes, targets) \<Rightarrow>
        if snd e > maxVotes then (snd e, [fst e])
        else if snd e = maxVotes then (maxVotes, targets @ [fst e])
        else (maxVotes, targets))"

text \<open>The tally of processVotes: the vote count object, maxVotes and targets.\<close>

definition tallyVotes :: "(string \<times> string) list \<Rightarrow> (string \<times> nat) list \<times> nat \<times> string list" where
  "tallyVotes votesSnap =
     (let voteCount = foldl countVote [] votesSnap
      in (voteCount, foldl pluralityStep (0, []) voteCount))"

text \<open>\<^verbatim>\<open>targets[0]\<close>, undefined on the empty array.\<close>

definition firstTarget :: "string list \<Rightarrow> string option" where
  "firstTarget targets = (case targets of [] \<Rightarrow> None | t # rest \<Rightarrow> Some t)"

text \<open>
  archiveVotes reads the day off the room document (a TypeError when there is none) and
  adds one history entry per vote.
\<close>

definition archiveVotes :: "(string \<times> string) list \<Rightarrow> world \<Rightarrow> error \<times> world + world" where
  "archiveVotes votesSnap w =
     (case roomDoc w of
        None \<Rightarrow> Inl (TypeError, w)
      | Some r \<Rightarrow>
          Inr (w\<lparr>voteHistoryCol := voteHistoryCol w @
                  map (\<lambda>d. \<lparr>historyDay = day r, voterId = fst d, historyTargetId = snd d,
                            historyTimestamp = now w\<rparr>) votesSnap\<rparr>))"

text \<open>What processVotes returns to its caller: undefined for a non-host, else the result.\<close>

datatype vote_result = Tie "string list" | Killed string string

text \<open>
  processVotes. After the tally: more than one target is a tie (one state write, nothing
  else). Otherwise the votes are archived and \<^verbatim>\<open>targets[0]\<close> is the victim; building
  the document reference from an undefined victim id raises. A victim whose player
  document is gone is reported with a placeholder name; else the player is marked dead,
  the death is logged at the room's day, and the state is written.
\<close>

definition processVotes :: "world \<Rightarrow> error \<times> world + world \<times> vote_result option" where
  "processVotes w =
     (case currentPlayer w of
        None \<Rightarrow> Inl (TypeError, w)
      | Some cp \<Rightarrow>
          if \<not> cpIsHost cp then Inr (w, None)
          else
            let votesSnap = votesCol w in
            (case tallyVotes votesSnap of (voteCount, maxVotes, targets) \<Rightarrow>
               if length targets > 1 then
                 andThen (setState VOTE_RESULT
                            [(''result'', JString ''tie''), (''tiedPlayers'', JStringList targets),
                             (''voteCounts'', JCounts voteCount)] w)
                   (\<lambda>w'. Inr (w', Some (Tie targets)))
               else
                 andThen (archiveVotes votesSnap w)
                   (\<lambda>w1.
                      case firstTarget targets of
                        None \<Rightarrow> Inl (InvalidPath, w1)
                      | Some victimId \<Rightarrow>
                          (case map_of (playersCol w1) victimId of
                             None \<Rightarrow>
                               andThen (setState VOTE_RESULT
                                          [(''result'', JString ''killed''),
                                           (''victimId'', JString victimId),
                                           (''victimName'', JString ''Unknown (Left)'')] w1)
                                 (\<lambda>w'. Inr (w', Some (Killed victimId ''Unknown'')))
                           | Some playerData \<Rightarrow>
                               let w2 = w1\<lparr>playersCol :=
                                          updateData victimId (\<lambda>p. p\<lparr>isAlive := False\<rparr>)
                                            (playersCol w1)\<rparr>
                               in (case roomDoc w2 of
                                     None \<Rightarrow> Inl (TypeError, w2)
                                   | Some r \<Rightarrow>
                                       andThen (setState VOTE_RESULT
                                                  [(''result'', JString ''killed''),
                                                   (''victimId'', JString victimId),
                                                   (''victimName'', JString (name playerData)),
                                                   (''voteCounts'', JCounts voteCount)]
                                                  (w2\<lparr>deathLogCol :=
                                                        AList.update victimId
                                                          \<lparr>cause = ''vote'', deathDay = day r,
                                                           deathRole = role playerData,
                                                           deathTimestamp = now w2\<rparr>
                                                          (deathLogCol w2)\<rparr>))
                                         (\<lambda>w'. Inr (w', Some (Killed victimId (name playerData)))))))))"

definition checkAllVoted :: "world \<Rightarrow> error \<times> world + world \<times> bool" where
  "checkAllVoted w =
     (let alivePlayers = map fst (filter (\<lambda>d. isAlive (snd d)) (playersCol w));
          allVoted = (length (votesCol w) \<ge> length alivePlayers)
      in if \<not> allVoted then Inr (w, allVoted)
         else (case currentPlayer w of
                 None \<Rightarrow> Inl (TypeError, w)
               | Some cp \<Rightarrow>
                   if \<not> cpIsHost cp then Inr (w, allVoted)
                   else andThen (processVotes w) (\<lambda>r. Inr (fst r, allVoted))))"

definition proceedAfterVote :: "world \<Rightarrow> error \<times> world + world" where
  "proceedAfterVote w =
     (case currentPlayer w of
        None \<Rightarrow> Inl (TypeError, w)
      | Some cp \<Rightarrow>
          if \<not> cpIsHost cp then Inr w
          else (case getState w of
                  None \<Rightarrow> Inr w
                | Some state \<Rightarrow>
                    if map_of (payload state) ''result'' = Some (JString ''tie'') then
                      andThen (setState MEETING_DISCUSSION [] w) startMeetingTimer
                    else if map_of (payload state) ''result'' = Some (JString ''killed'') then
                      (case checkWinCondition (playersCol w) of
                         Some winner \<Rightarrow> setState GAME_RESULT [(''winner'', JString winner)] w
                       | None \<Rightarrow> andThen (setState BREAK [] w) startBreakTimer)
                    else Inr w))"

section \<open>Night (checkEDSubmitted, checkImpostorSubmitted, processMorning)\<close>

definition isEDPlayer :: "string \<times> player \<Rightarrow> bool" where
  "isEDPlayer d =
     (isAlive (snd d) \<and>
      (role (snd d) = Some ''engineer'' \<or> role (snd d) = Some ''doctor''
       \<or> role (snd d) = Some ''fallen_angel''))"

text \<open>
  checkEDSubmitted reads the current phase again before it moves on, and moves on only
  out of NIGHT_SPECIAL; \<^verbatim>\<open>currentState.phase\<close> on a missing state document raises.
\<close>

definition checkEDSubmitted :: "world \<Rightarrow> error \<times> world + world \<times> bool" where
  "checkEDSubmitted w =
     (let edPlayers = map fst (filter isEDPlayer (playersCol w));
          submittedCount = foldl (\<lambda>n d. if fst d \<in> set edPlayers then n + 1 else n)
                             (0::nat) (nightActionsCol w);
          allSubmitted = (submittedCount \<ge> length edPlayers)
      in if \<not> allSubmitted then Inr (w, allSubmitted)
         else (case currentPlayer w of
                 None \<Rightarrow> Inl (TypeError, w)
               | Some cp \<Rightarrow>
                   if \<not> cpIsHost cp then Inr (w, allSubmitted)
                   else (case getState w of
                           None \<Rightarrow> Inl (TypeError, w)
                         | Some currentState \<Rightarrow>
                             if phase currentState = NIGHT_SPECIAL then
                               andThen (setState NIGHT_IMPOSTOR [] w)
                                 (\<lambda>w'. Inr (w', allSubmitted))
                             else Inr (w, allSubmitted))))"

text \<open>
  Step 1 of processMorning: an engineer action whose target exists, is alive and has role
  bug adds the target with cause \<^verbatim>\<open>bug_death\<close>. A victim is the pair of id and cause.
\<close>

definition engineerStep ::
    "(string \<rightharpoonup> player) \<Rightarrow> (string \<times> string) list \<Rightarrow> string \<times> night_action
      \<Rightarrow> (string \<times> string) list" where
  "engineerStep players victims d =
     (if actionType (snd d) = ''engineer'' then
        (case players (targetId (snd d)) of
           None \<Rightarrow> victims
         | Some target \<Rightarrow>
             if isAlive target \<and> role target = Some ''bug''
             then victims @ [(targetId (snd d), ''bug_death'')]
             else victims)
      else victims)"

text \<open>
  Step 2: the accumulator is (impostorTargetId, earliestTime), both null at the start.
  An action without a timestamp counts as submitted now. The test
  \<^verbatim>\<open>!earliestTime || submittedAt < earliestTime\<close> also holds when earliestTime is 0.
\<close>

definition submittedMillis :: "nat \<Rightarrow> night_action \<Rightarrow> nat" where
  "submittedMillis t a = (case submittedAt a of None \<Rightarrow> t | Some m \<Rightarrow> m)"

definition impostorStep ::
    "nat \<Rightarrow> string option \<times> nat option \<Rightarrow> string \<times> night_action \<Rightarrow> string option \<times> nat option" where
  "impostorStep t acc d =
     (case acc of (impostorTargetId, earliestTime) \<Rightarrow>
        if actionType (snd d) = ''impostor'' then
          (case earliestTime of
             None \<Rightarrow> (Some (targetId (snd d)), Some (submittedMillis t (snd d)))
           | Some e \<Rightarrow>
               if e = 0 \<or> submittedMillis t (snd d) < e
               then (Some (targetId (snd d)), Some (submittedMillis t (snd d)))
               else (impostorTargetId, earliestTime))
        else (impostorTargetId, earliestTime))"

definition impostorTarget :: "nat \<Rightarrow> (string \<times> night_action) list \<Rightarrow> string option" where
  "impostorTarget t actionsSnap = fst (foldl (impostorStep t) (None, None) actionsSnap)"

definition isProtected :: "string \<Rightarrow> (string \<times> night_action) list \<Rightarrow> bool" where
  "isProtected impostorTargetId actionsSnap =
     foldl (\<lambda>p d. if actionType (snd d) = ''fallen_angel'' \<and> targetId (snd d) = impostorTargetId
                   then True else p)
       False actionsSnap"

text \<open>
  Steps 1 to 3: the victim list of the night. \<^verbatim>\<open>if (impostorTargetId)\<close> skips step 3
  for null and for the empty string.
\<close>

definition nightVictims ::
    "nat \<Rightarrow> (string \<times> night_action) list \<Rightarrow> (string \<rightharpoonup> player) \<Rightarrow> (string \<times> string) list" where
  "nightVictims t actionsSnap players =
     (let victims = foldl (engineerStep players) [] actionsSnap
      in case impostorTarget t actionsSnap of
           None \<Rightarrow> victims
         | Some impostorTargetId \<Rightarrow>
             if impostorTargetId = [] then victims
             else (case players impostorTargetId of
                     None \<Rightarrow> victims
                   | Some target \<Rightarrow>
                       let isAlreadyDead = find (\<lambda>v. fst v = impostorTargetId) victims
                       in if isAlive target \<and> isAlreadyDead = None then
                            (if isProtected impostorTargetId actionsSnap then victims
                             else if role target = Some ''bug'' then victims
                             else victims @ [(impostorTargetId, ''impostor'')])
                          else victims))"

text \<open>
  Step 4 for one victim: the player is marked dead and the death is logged with the role
  the player snapshot holds (every victim was found in that snapshot in steps 1 to 3).
\<close>

definition applyDeath :: "(string \<rightharpoonup> player) \<Rightarrow> nat \<Rightarrow> world \<Rightarrow> string \<times> string \<Rightarrow> world" where
  "applyDeath players d w v =
     w\<lparr>playersCol := updateData (fst v) (\<lambda>p. p\<lparr>isAlive := False\<rparr>) (playersCol w),
       deathLogCol :=
         AList.update (fst v)
           \<lparr>cause = snd v, deathDay = d,
            deathRole = (case players (fst v) of None \<Rightarrow> None | Some p \<Rightarrow> role p),
            deathTimestamp = now w\<rparr>
           (deathLogCol w)\<rparr>"

text \<open>
  processMorning. The body runs inside \<^verbatim>\<open>try\<close>; reading the day off a missing room
  document raises before any write, and the \<^verbatim>\<open>catch\<close> only logs.
\<close>

definition processMorning :: "world \<Rightarrow> error \<times> world + world" where
  "processMorning w =
     (case currentPlayer w of
        None \<Rightarrow> Inl (TypeError, w)
      | Some cp \<Rightarrow>
          if \<not> cpIsHost cp then Inr w
          else
            let players = map_of (playersCol w);
                victims = nightVictims (now w) (nightActionsCol w) players
            in (case roomDoc w of
                  None \<Rightarrow> Inr w
                | Some r \<Rightarrow>
                    let w1 = foldl (applyDeath players (day r)) w victims;
                        w2 = w1\<lparr>roomDoc := Some (r\<lparr>day := day r + 1\<rparr>)\<rparr>
                    in (case setState MORNING_ANNOUNCEMENT
                               [(''victims'', JStringList (map fst victims))] w2 of
                          Inl e \<Rightarrow> Inr (snd e)
                        | Inr w' \<Rightarrow> Inr w')))"

definition checkImpostorSubmitted :: "world \<Rightarrow> error \<times> world + world \<times> bool" where
  "checkImpostorSubmitted w =
     (let impostorSubmitted =
            foldl (\<lambda>s d. if actionType (snd d) = ''impostor'' then True else s)
              False (nightActionsCol w)
      in if \<not> impostorSubmitted then Inr (w, impostorSubmitted)
         else (case currentPlayer w of
                 None \<Rightarrow> Inl (TypeError, w)
               | Some cp \<Rightarrow>
                   if \<not> cpIsHost cp then Inr (w, impostorSubmitted)
                   else (case getState w of
                           None \<Rightarrow> Inl (TypeError, w)
                         | Some currentState \<Rightarrow>
                             if phase currentState = NIGHT_IMPOSTOR then
                               andThen (processMorning w)
                                 (\<lambda>w'. Inr (w', impostorSubmitted))
                             else Inr (w, impostorSubmitted))))"

text \<open>proceedAfterMorning: after the host check everything runs inside \<^verbatim>\<open>try\<close>.\<close>

definition proceedAfterMorning :: "world \<Rightarrow> error \<times> world + world" where
  "proceedAfterMorning w =
     (case currentPlayer w of
        None \<Rightarrow> Inl (TypeError, w)
      | Some cp \<Rightarrow>
          if \<not> cpIsHost cp then Inr w
          else (case checkWinCondition (playersCol w) of
                  Some winner \<Rightarrow>
                    (case setState GAME_RESULT [(''winner'', JString winner)] w of
                       Inl e \<Rightarrow> Inr (snd e)
                     | Inr w' \<Rightarrow> Inr w')
                | None \<Rightarrow>
                    (case setState MEETING_DISCUSSION [] w of
                       Inl e \<Rightarrow> Inr (snd e)
                     | Inr w1 \<Rightarrow>
                         (case startMeetingTimer w1 of
                            Inl e \<Rightarrow> Inr (snd e)
                          | Inr w' \<Rightarrow> Inr w'))))"

section \<open>Sequences of calls and sample rooms\<close>

text \<open>The version the state document holds; a missing document or field counts as 0.\<close>

definition storedVersion :: "world \<Rightarrow> int" where
  "storedVersion w = (case gameStateDoc w of None \<Rightarrow> 0 | Some g \<Rightarrow> version g)"

text \<open>
  A sequence of setState calls on one room, each with the clock's reading, the phase and
  the additional data of the call: the list of the worlds after each call, up to the
  first call that raises.
\<close>

fun setStateCalls :: "(nat \<times> phase \<times> (string \<times> jsval) list) list \<Rightarrow> world \<Rightarrow> world list" where
  "setStateCalls [] w = []"
| "setStateCalls (c # cs) w =
     (case setState (fst (snd c)) (snd (snd c)) (w\<lparr>now := fst c\<rparr>) of
        Inl e \<Rightarrow> []
      | Inr w' \<Rightarrow> w' # setStateCalls cs w')"

text \<open>The number of votes a target received.\<close>

definition votesFor :: "string \<Rightarrow> (string \<times> string) list \<Rightarrow> nat" where
  "votesFor t votesSnap = length (filter (\<lambda>d. snd d = t) votesSnap)"

definition hostPlayer :: current_player where
  "hostPlayer = \<lparr>cpId = ''h1'', cpName = ''Hana'', cpIsHost = True, cpRole = Some ''citizen''\<rparr>"

definition guestPlayer :: current_player where
  "guestPlayer = \<lparr>cpId = ''p2'', cpName = ''Bob'', cpIsHost = False, cpRole = Some ''impostor''\<rparr>"

definition sampleSettings :: settings where
  "sampleSettings = \<lparr>roles = defaultRoles, timerMeeting = 300, timerVote = 60, timerBreak = 120\<rparr>"

text \<open>
  A room on day 2 in the voting phase: four players, one of them dead, and the three
  living players have voted, two votes for \<^verbatim>\<open>p2\<close> and one for \<^verbatim>\<open>p3\<close>. The state
  document still carries the victims of the last morning.
\<close>

definition votingWorld :: world where
  "votingWorld =
     \<lparr>currentPlayer = Some hostPlayer,
      activeTimer = Some (60, ''voting''),
      now = 5000,
      roomDoc = Some \<lparr>status = ''ingame'', day = 2\<rparr>,
      playersCol =
        [(''h1'', \<lparr>name = ''Hana'', isHost = True, isAlive = True, role = Some ''citizen'',
                   roleReadConfirmed = True\<rparr>),
         (''p2'', \<lparr>name = ''Bob'', isHost = False, isAlive = True, role = Some ''impostor'',
                   roleReadConfirmed = True\<rparr>),
         (''p3'', \<lparr>name = ''Cid'', isHost = False, isAlive = True, role = Some ''engineer'',
                   roleReadConfirmed = True\<rparr>),
         (''p4'', \<lparr>name = ''Dee'', isHost = False, isAlive = False, role = Some ''doctor'',
                   roleReadConfirmed = True\<rparr>)],
      settingsDoc = Some sampleSettings,
      gameStateDoc =
        Some \<lparr>phase = VOTING, version = 7, transitionId = Transition VOTING 4000,
              updatedAt = 4000, hostUid = ''h1'',
              payload = [(''victims'', JStringList [''p4''])]\<rparr>,
      votesCol = [(''h1'', ''p2''), (''p2'', ''p3''), (''p3'', ''p2'')],
      nightActionsCol = [],
      deathLogCol =
        [(''p4'', \<lparr>cause = ''impostor'', deathDay = 1, deathRole = Some ''doctor'',
                   deathTimestamp = 3000\<rparr>)],
      voteHistoryCol = [],
      rtdbTimer = Some (60, ''voting''),
      presence = [''h1'', ''p2'', ''p3'', ''p4'']\<rparr>"

text \<open>The same room as the client of the non-host player \<^verbatim>\<open>p2\<close> sees it.\<close>

definition guestWorld :: world where
  "guestWorld = votingWorld\<lparr>currentPlayer := Some guestPlayer, activeTimer := None\<rparr>"

text \<open>
  A room of five living players \<^verbatim>\<open>A\<close> to \<^verbatim>\<open>E\<close> on day 1, hosted by \<^verbatim>\<open>A\<close>,
  in the voting phase with a given set of votes, and two sets of votes: two for
  \<^verbatim>\<open>A\<close>, two for \<^verbatim>\<open>B\<close> and one for \<^verbatim>\<open>C\<close>; three for \<^verbatim>\<open>A\<close> and one
  for \<^verbatim>\<open>B\<close>.
\<close>

definition hostAnn :: current_player where
  "hostAnn = \<lparr>cpId = ''A'', cpName = ''Ann'', cpIsHost = True, cpRole = Some ''citizen''\<rparr>"

definition fivePlayers :: players_snap where
  "fivePlayers =
     [(''A'', (mkPlayer ''Ann'' True (Some ''citizen''))\<lparr>isHost := True\<rparr>),
      (''B'', mkPlayer ''Bob'' True (Some ''impostor'')),
      (''C'', mkPlayer ''Cid'' True (Some ''engineer'')),
      (''D'', mkPlayer ''Dee'' True (Some ''citizen'')),
      (''E'', mkPlayer ''Eve'' True (Some ''bug''))]"

definition roomOfFive :: world where
  "roomOfFive =
     \<lparr>currentPlayer = Some hostAnn,
      activeTimer = Some (60, ''voting''),
      now = 5000,
      roomDoc = Some \<lparr>status = ''ingame'', day = 1\<rparr>,
      playersCol = fivePlayers,
      settingsDoc = Some sampleSettings,
      gameStateDoc =
        Some \<lparr>phase = VOTING, version = 7, transitionId = Transition VOTING 4000,
              updatedAt = 4000, hostUid = ''A'', payload = []\<rparr>,
      votesCol = [],
      nightActionsCol = [],
      deathLogCol = [],
      voteHistoryCol = [],
      rtdbTimer = Some (60, ''voting''),
      presence = [''A'', ''B'', ''C'', ''D'', ''E'']\<rparr>"

definition ballotWorld :: "(string \<times> string) list \<Rightarrow> world" where
  "ballotWorld votes = roomOfFive\<lparr>votesCol := votes\<rparr>"

definition tiedVotes :: "(string \<times> string) list" where
  "tiedVotes = [(''A'', ''B''), (''B'', ''A''), (''C'', ''A''), (''D'', ''B''), (''E'', ''C'')]"

definition decidedVotes :: "(string \<times> string) list" where
  "decidedVotes = [(''A'', ''B''), (''B'', ''A''), (''C'', ''A''), (''D'', ''A'')]"

text \<open>
  The parts of the night's outcome, for stating what processMorning computes: the
  targets of engineer actions that are living bugs, the impostor actions, and the
  conditions under which the impostors' target dies.
\<close>

definition isLivingBug :: "(string \<rightharpoonup> player) \<Rightarrow> string \<Rightarrow> bool" where
  "isLivingBug players tid =
     (case players tid of None \<Rightarrow> False | Some target \<Rightarrow> isAlive target \<and> role target = Some ''bug'')"

definition engineerVictims ::
    "(string \<rightharpoonup> player) \<Rightarrow> (string \<times> night_action) list \<Rightarrow> (string \<times> string) list" where
  "engineerVictims players actionsSnap =
     map (\<lambda>d. (targetId (snd d), ''bug_death''))
       (filter (\<lambda>d. actionType (snd d) = ''engineer'' \<and> isLivingBug players (targetId (snd d)))
          actionsSnap)"

definition impostorActions :: "(string \<times> night_action) list \<Rightarrow> (string \<times> night_action) list" where
  "impostorActions actionsSnap = filter (\<lambda>d. actionType (snd d) = ''impostor'') actionsSnap"

definition hasProtector :: "string \<Rightarrow> (string \<times> night_action) list \<Rightarrow> bool" where
  "hasProtector tid actionsSnap =
     list_ex (\<lambda>d. actionType (snd d) = ''fallen_angel'' \<and> targetId (snd d) = tid) actionsSnap"

definition impostorKills ::
    "(string \<rightharpoonup> player) \<Rightarrow> (string \<times> night_action) list \<Rightarrow> string \<Rightarrow> bool" where
  "impostorKills players actionsSnap tid =
     (tid \<noteq> [] \<and>
      (case players tid of
         None \<Rightarrow> False
       | Some target \<Rightarrow>
           isAlive target
           \<and> tid \<notin> fst ` set (engineerVictims players actionsSnap)
           \<and> \<not> hasProtector tid actionsSnap
           \<and> role target \<noteq> Some ''bug''))"

definition mkAction :: "string \<Rightarrow> string \<Rightarrow> nat \<Rightarrow> night_action" where
  "mkAction ty tid t = \<lparr>actionType = ty, targetId = tid, submittedAt = Some t\<rparr>"

text \<open>
  A night in the room of five: the engineer checks the bug \<^verbatim>\<open>E\<close>, and two impostor
  actions disagree, the earlier one (at 150) aiming at \<^verbatim>\<open>A\<close>. In the second night a
  fallen angel also protects \<^verbatim>\<open>A\<close>.
\<close>

definition sampleNight :: "(string \<times> night_action) list" where
  "sampleNight =
     [(''B'', mkAction ''impostor'' ''D'' 200),
      (''C'', mkAction ''engineer'' ''E'' 100),
      (''F'', mkAction ''impostor'' ''A'' 150)]"

definition protectedNight :: "(string \<times> night_action) list" where
  "protectedNight = sampleNight @ [(''G'', mkAction ''fallen_angel'' ''A'' 120)]"

text \<open>The room of five in the impostors' night phase, with given night actions.\<close>

definition nightWorld :: "(string \<times> night_action) list \<Rightarrow> world" where
  "nightWorld actions =
     roomOfFive\<lparr>activeTimer := None, nightActionsCol := actions, rtdbTimer := None,
       gameStateDoc :=
         Some \<lparr>phase = NIGHT_IMPOSTOR, version = 12, transitionId = Transition NIGHT_IMPOSTOR 4500,
               updatedAt = 4500, hostUid = ''A'', payload = []\<rparr>\<rparr>"

section \<open>Properties of the win condition\<close>

lemma foldl_countAliveStep:
  "foldl countAliveStep (a, c) ps = (a + aliveImpostorCount ps, c + aliveNonImpostorCount ps)"
  by (induction ps arbitrary: a c)
     (simp_all add: countAliveStep_def aliveImpostorCount_def aliveNonImpostorCount_def)

lemma getAliveBug_foldl_Some:
  "foldl (\<lambda>bug d. if isAlive (snd d) \<and> role (snd d) = Some ''bug'' then Some (snd d) else bug)
     (Some b) ps \<noteq> None"
  by (induction ps arbitrary: b) simp_all

lemma getAliveBug_foldl_None:
  "(foldl (\<lambda>bug d. if isAlive (snd d) \<and> role (snd d) = Some ''bug'' then Some (snd d) else bug)
     None ps = None) = (aliveBugCount ps = 0)"
  by (induction ps) (simp_all add: aliveBugCount_def getAliveBug_foldl_Some)

lemma getAliveBug_None: "(getAliveBug ps = None) = (aliveBugCount ps = 0)"
  by (simp add: getAliveBug_def getAliveBug_foldl_None)

lemma checkWinCondition_unfold:
  "checkWinCondition ps =
     (if aliveImpostorCount ps \<ge> aliveNonImpostorCount ps \<and> aliveImpostorCount ps > 0
      then (if aliveBugCount ps = 0 then Some ''impostor'' else Some ''bug'')
      else if aliveImpostorCount ps = 0
      then (if aliveBugCount ps = 0 then Some ''citizen'' else Some ''bug'')
      else None)"
  using getAliveBug_None [of ps]
  by (cases "getAliveBug ps") (simp_all add: checkWinCondition_def foldl_countAliveStep)

lemma aliveCount_split: "aliveCount ps = aliveImpostorCount ps + aliveNonImpostorCount ps"
  by (induction ps) (simp_all add: aliveCount_def aliveImpostorCount_def aliveNonImpostorCount_def)

lemma aliveNonImpostorCount_split:
  "aliveNonImpostorCount ps = specAliveCitizenAlignedCount ps + aliveBugCount ps"
  by (induction ps)
     (auto simp add: aliveNonImpostorCount_def specAliveCitizenAlignedCount_def aliveBugCount_def)

lemma aliveBugCount_pos:
  "(0 < aliveBugCount ps) = (\<exists>d \<in> set ps. isAlive (snd d) \<and> role (snd d) = Some ''bug'')"
  by (induction ps) (auto simp add: aliveBugCount_def)

text \<open>
  C1 (amended). For every roster, checkWinCondition counts the living players with role
  impostor in aliveImpostors and every other living player, a living bug included, in
  aliveCitizens. When aliveImpostors >= aliveCitizens and aliveImpostors > 0 the winner
  is impostor, when aliveImpostors = 0 it is citizen, in both cases reported as bug when
  a living bug exists; when neither condition holds it returns null.
\<close>

theorem checkWinCondition_evaluates:
  "foldl countAliveStep (0, 0) ps = (aliveImpostorCount ps, aliveNonImpostorCount ps)
   \<and> aliveNonImpostorCount ps = specAliveCitizenAlignedCount ps + aliveBugCount ps
   \<and> checkWinCondition ps =
       (if aliveImpostorCount ps \<ge> aliveNonImpostorCount ps \<and> aliveImpostorCount ps > 0
        then (if aliveBugCount ps = 0 then Some ''impostor'' else Some ''bug'')
        else if aliveImpostorCount ps = 0
        then (if aliveBugCount ps = 0 then Some ''citizen'' else Some ''bug'')
        else None)"
proof -
  have "foldl countAliveStep (0, 0) ps = (aliveImpostorCount ps, aliveNonImpostorCount ps)"
    by (simp add: foldl_countAliveStep)
  moreover note aliveNonImpostorCount_split [of ps] checkWinCondition_unfold [of ps]
  ultimately show ?thesis by blast
qed

text \<open>
  The evaluator on three rosters: two living impostors against three other living
  players (no winner), two living impostors against one (impostor), and a roster whose
  only impostor is dead (citizen).
\<close>

theorem checkWinCondition_evaluates_witness:
  "checkWinCondition rosterTwoImpostorsThreeCitizens = None
   \<and> checkWinCondition rosterTwoImpostorsOneCitizen = Some ''impostor''
   \<and> checkWinCondition rosterNoImpostor = Some ''citizen''"
proof -
  have a: "aliveImpostorCount rosterTwoImpostorsThreeCitizens = 2
      \<and> aliveNonImpostorCount rosterTwoImpostorsThreeCitizens = 3"
    by (simp add: rosterTwoImpostorsThreeCitizens_def mkPlayer_def aliveImpostorCount_def
        aliveNonImpostorCount_def)
  have b: "aliveImpostorCount rosterTwoImpostorsOneCitizen = 2
      \<and> aliveNonImpostorCount rosterTwoImpostorsOneCitizen = 1
      \<and> aliveBugCount rosterTwoImpostorsOneCitizen = 0"
    by (simp add: rosterTwoImpostorsOneCitizen_def mkPlayer_def aliveImpostorCount_def
        aliveNonImpostorCount_def aliveBugCount_def)
  have c: "aliveImpostorCount rosterNoImpostor = 0 \<and> aliveBugCount rosterNoImpostor = 0"
    by (simp add: rosterNoImpostor_def mkPlayer_def aliveImpostorCount_def aliveBugCount_def)
  have "checkWinCondition rosterTwoImpostorsThreeCitizens = None"
    using a checkWinCondition_evaluates [of rosterTwoImpostorsThreeCitizens] by simp
  moreover have "checkWinCondition rosterTwoImpostorsOneCitizen = Some ''impostor''"
    using b checkWinCondition_evaluates [of rosterTwoImpostorsOneCitizen] by simp
  moreover have "checkWinCondition rosterNoImpostor = Some ''citizen''"
    using c checkWinCondition_evaluates [of rosterNoImpostor] by simp
  ultimately show ?thesis by blast
qed

text \<open>
  C1 as stated fails: with one living impostor and two living bugs the count of living
  citizen-aligned players that leaves the bugs out is 0, so the stated impostor condition
  holds, yet the evaluator counts the bugs among aliveCitizens and returns null.
\<close>

theorem checkWinCondition_counts_bug_counterexample:
  "aliveImpostorCount rosterImpostorTwoBugs \<ge> specAliveCitizenAlignedCount rosterImpostorTwoBugs
   \<and> aliveImpostorCount rosterImpostorTwoBugs > 0
   \<and> checkWinCondition rosterImpostorTwoBugs = None"
  by (simp add: checkWinCondition_unfold rosterImpostorTwoBugs_def mkPlayer_def
      aliveImpostorCount_def aliveNonImpostorCount_def aliveBugCount_def
      specAliveCitizenAlignedCount_def)

text \<open>
  C2 (amended). Whenever one of the two numeric win conditions holds as the evaluator
  counts (living impostors >= living non-impostors, a living bug counted among the
  non-impostors, with at least one living impostor; or no living impostor) and some living
  player has role bug, checkWinCondition returns bug. In particular a roster with exactly
  one living impostor, one living bug and no other living player yields bug.
\<close>

theorem checkWinCondition_bug_preempts:
  "((aliveImpostorCount ps \<ge> aliveNonImpostorCount ps \<and> aliveImpostorCount ps > 0
      \<or> aliveImpostorCount ps = 0)
     \<and> (\<exists>d \<in> set ps. isAlive (snd d) \<and> role (snd d) = Some ''bug'')
     \<longrightarrow> checkWinCondition ps = Some ''bug'')
   \<and> (aliveImpostorCount ps = 1 \<and> aliveBugCount ps = 1 \<and> aliveCount ps = 2
     \<longrightarrow> checkWinCondition ps = Some ''bug'')"
proof (intro conjI impI)
  assume a: "(aliveImpostorCount ps \<ge> aliveNonImpostorCount ps \<and> aliveImpostorCount ps > 0
      \<or> aliveImpostorCount ps = 0)
     \<and> (\<exists>d \<in> set ps. isAlive (snd d) \<and> role (snd d) = Some ''bug'')"
  then have "0 < aliveBugCount ps"
    by (simp add: aliveBugCount_pos)
  with a show "checkWinCondition ps = Some ''bug''"
    by (auto simp add: checkWinCondition_unfold)
next
  assume b: "aliveImpostorCount ps = 1 \<and> aliveBugCount ps = 1 \<and> aliveCount ps = 2"
  then have "aliveNonImpostorCount ps = 1"
    using aliveCount_split [of ps] by simp
  with b show "checkWinCondition ps = Some ''bug''"
    by (simp add: checkWinCondition_unfold)
qed

text \<open>One living impostor, one living bug and a dead citizen: the winner is bug.\<close>

theorem checkWinCondition_bug_preempts_witness:
  "aliveImpostorCount rosterImpostorBug = 1 \<and> aliveBugCount rosterImpostorBug = 1
   \<and> aliveCount rosterImpostorBug = 2
   \<and> aliveImpostorCount rosterImpostorBug \<ge> aliveNonImpostorCount rosterImpostorBug
   \<and> (\<exists>d \<in> set rosterImpostorBug. isAlive (snd d) \<and> role (snd d) = Some ''bug'')
   \<and> checkWinCondition rosterImpostorBug = Some ''bug''"
proof -
  have h: "aliveImpostorCount rosterImpostorBug = 1 \<and> aliveBugCount rosterImpostorBug = 1
      \<and> aliveCount rosterImpostorBug = 2
      \<and> aliveImpostorCount rosterImpostorBug \<ge> aliveNonImpostorCount rosterImpostorBug
      \<and> (\<exists>d \<in> set rosterImpostorBug. isAlive (snd d) \<and> role (snd d) = Some ''bug'')"
    by (simp add: rosterImpostorBug_def mkPlayer_def aliveImpostorCount_def
        aliveNonImpostorCount_def aliveBugCount_def aliveCount_def)
  with checkWinCondition_bug_preempts [of rosterImpostorBug] show ?thesis
    by simp
qed

text \<open>
  C2 as stated fails: with one living impostor, one living citizen and one living bug the
  impostor condition holds when the bug is left out of the citizen-aligned count (1 >= 1)
  and a bug is alive, yet the evaluator counts two living non-impostors and returns null,
  not bug.
\<close>

theorem checkWinCondition_bug_preempts_counterexample:
  "aliveImpostorCount rosterImpostorCitizenBug \<ge> specAliveCitizenAlignedCount rosterImpostorCitizenBug
   \<and> aliveImpostorCount rosterImpostorCitizenBug > 0
   \<and> aliveBugCount rosterImpostorCitizenBug = 1
   \<and> checkWinCondition rosterImpostorCitizenBug = None
   \<and> checkWinCondition rosterImpostorCitizenBug \<noteq> Some ''bug''"
  by (simp add: checkWinCondition_unfold rosterImpostorCitizenBug_def mkPlayer_def
      aliveImpostorCount_def aliveNonImpostorCount_def aliveBugCount_def
      specAliveCitizenAlignedCount_def)

section \<open>Properties of role assignment\<close>

lemma pushRole_eq: "pushRole i cnt r acc = acc @ replicate (nat (cnt - i)) r"
proof (induction i cnt r acc rule: pushRole.induct)
  case (1 i cnt r acc)
  show ?case
  proof (cases "i < cnt")
    case True
    then have "nat (cnt - i) = Suc (nat (cnt - (i + 1)))" by simp
    with True 1 show ?thesis
      by (simp add: pushRole.simps [of i cnt r acc] replicate_app_Cons_same)
  next
    case False
    then show ?thesis by (simp add: pushRole.simps [of i cnt r acc])
  qed
qed

lemma expandRoles_eq:
  "expandRoles rs acc = acc @ concat (map (\<lambda>e. replicate (nat (snd e)) (fst e)) rs)"
  by (induction rs acc rule: expandRoles.induct) (simp_all add: pushRole_eq)

lemma padCitizen_eq:
  "padCitizen n acc = acc @ replicate (n - length acc) ''citizen''"
proof (induction n acc rule: padCitizen.induct)
  case (1 n acc)
  show ?case
  proof (cases "length acc < n")
    case True
    then have "n - length acc = Suc (n - Suc (length acc))" by simp
    with True 1 show ?thesis
      by (simp add: padCitizen.simps [of n acc] replicate_app_Cons_same)
  next
    case False
    then show ?thesis by (simp add: padCitizen.simps [of n acc])
  qed
qed

lemma length_expandRoles: "length (expandRoles rs []) = roleTotal rs"
  by (induction rs) (simp_all add: expandRoles_eq roleTotal_def)

lemma mset_expandRoles: "mset (expandRoles rs []) = roleMultiset rs"
  by (induction rs) (simp_all add: expandRoles_eq roleMultiset_def)

lemma roleTotal_nonneg:
  "\<forall>e \<in> set rs. 0 \<le> snd e \<Longrightarrow> int (roleTotal rs) = sum_list (map snd rs)"
  by (induction rs) (simp_all add: roleTotal_def)

text \<open>
  C4. assignRoles returns exactly playerCount role ids. The expansion of the role counts
  has as many entries as the counts sum to and is the multiset they describe; when it is
  shorter than playerCount the result is the expansion followed by citizen up to
  playerCount, when it is longer the result is its first playerCount entries, and when
  the counts sum to playerCount the result is exactly the multiset of the role counts.
\<close>

theorem assignRoles_length_and_content:
  "length (assignRoles n rs) = n
   \<and> length (expandRoles rs []) = roleTotal rs
   \<and> mset (expandRoles rs []) = roleMultiset rs
   \<and> (roleTotal rs \<le> n \<longrightarrow>
        assignRoles n rs = expandRoles rs [] @ replicate (n - roleTotal rs) ''citizen'')
   \<and> (n \<le> roleTotal rs \<longrightarrow> assignRoles n rs = take n (expandRoles rs []))
   \<and> (roleTotal rs = n \<longrightarrow> mset (assignRoles n rs) = roleMultiset rs)"
proof -
  have len: "length (expandRoles rs []) = roleTotal rs"
    by (rule length_expandRoles)
  have ms: "mset (expandRoles rs []) = roleMultiset rs"
    by (rule mset_expandRoles)
  have "length (assignRoles n rs) = n"
    by (simp add: assignRoles_def padCitizen_eq len)
  moreover have "roleTotal rs \<le> n \<longrightarrow>
      assignRoles n rs = expandRoles rs [] @ replicate (n - roleTotal rs) ''citizen''"
    by (simp add: assignRoles_def padCitizen_eq len)
  moreover have "n \<le> roleTotal rs \<longrightarrow> assignRoles n rs = take n (expandRoles rs [])"
    by (simp add: assignRoles_def padCitizen_eq len)
  moreover have "roleTotal rs = n \<longrightarrow> mset (assignRoles n rs) = roleMultiset rs"
    using ms by (auto simp add: assignRoles_def padCitizen_eq len)
  ultimately show ?thesis using len ms by blast
qed

text \<open>
  The default settings hold nine roles: for nine players the deck is their multiset, for
  eleven it is padded with two citizens, for three it is cut to the first three.
\<close>

theorem assignRoles_length_and_content_witness:
  "roleTotal defaultRoles = 9
   \<and> mset (assignRoles 9 defaultRoles) = roleMultiset defaultRoles
   \<and> assignRoles 11 defaultRoles = expandRoles defaultRoles [] @ [''citizen'', ''citizen'']
   \<and> assignRoles 3 defaultRoles = [''citizen'', ''citizen'', ''citizen'']"
proof -
  have t: "roleTotal defaultRoles = 9"
    by (simp add: roleTotal_def defaultRoles_def)
  have e: "take 3 (expandRoles defaultRoles []) = [''citizen'', ''citizen'', ''citizen'']"
    by (simp add: expandRoles_eq defaultRoles_def eval_nat_numeral)
  have "mset (assignRoles 9 defaultRoles) = roleMultiset defaultRoles"
    using t assignRoles_length_and_content [of 9 defaultRoles] by simp
  moreover have "assignRoles 11 defaultRoles
      = expandRoles defaultRoles [] @ [''citizen'', ''citizen'']"
    using t assignRoles_length_and_content [of 11 defaultRoles] by (simp add: eval_nat_numeral)
  moreover have "assignRoles 3 defaultRoles = [''citizen'', ''citizen'', ''citizen'']"
    using t e assignRoles_length_and_content [of 3 defaultRoles] by simp
  ultimately show ?thesis using t by blast
qed

section \<open>Properties of the state writes\<close>

lemma setState_host:
  "currentPlayer w = Some cp \<Longrightarrow> cpIsHost cp \<Longrightarrow>
   setState ph ad w =
     Inr (w\<lparr>gameStateDoc := Some (mergeGameState (gameStateDoc w) ph (now w) (cpId cp) ad)\<rparr>)"
  by (simp add: setState_def)

lemma setState_nonhost:
  "currentPlayer w = Some cp \<Longrightarrow> \<not> cpIsHost cp \<Longrightarrow> setState ph ad w = Inr w"
  by (simp add: setState_def)

lemma setStateCalls_versions:
  "currentPlayer w = Some cp \<Longrightarrow> cpIsHost cp \<Longrightarrow>
   map storedVersion (setStateCalls cs w) = map (\<lambda>i. storedVersion w + 1 + int i) [0..<length cs]"
proof (induction cs arbitrary: w)
  case Nil
  then show ?case by simp
next
  case (Cons c cs)
  let ?w0 = "w\<lparr>now := fst c\<rparr>"
  let ?w1 = "?w0\<lparr>gameStateDoc :=
      Some (mergeGameState (gameStateDoc ?w0) (fst (snd c)) (now ?w0) (cpId cp) (snd (snd c)))\<rparr>"
  have s: "setState (fst (snd c)) (snd (snd c)) ?w0 = Inr ?w1"
    using Cons.prems by (simp add: setState_def)
  have v: "storedVersion ?w1 = storedVersion w + 1"
    by (simp add: storedVersion_def mergeGameState_def split: option.splits)
  have h: "currentPlayer ?w1 = Some cp"
    using Cons.prems by simp
  have ih: "map storedVersion (setStateCalls cs ?w1)
      = map (\<lambda>i. storedVersion ?w1 + 1 + int i) [0..<length cs]"
    using Cons.IH [OF h Cons.prems(2)] .
  have "map (\<lambda>i. storedVersion w + 1 + int i) [0..<length (c # cs)]
      = (storedVersion w + 1) # map (\<lambda>i. storedVersion w + 1 + int (Suc i)) [0..<length cs]"
    by (simp add: upt_conv_Cons map_Suc_upt [symmetric] del: upt_Suc)
  then show ?case
    using s v ih by simp
qed

lemma sorted_wrt_affine: "sorted_wrt (<) (map (\<lambda>i. (a::int) + int i) [0..<n])"
  by (simp add: sorted_wrt_map sorted_wrt_iff_nth_less)

text \<open>
  C6. In any sequence of setState calls by the host on one room every call writes, and
  the version it leaves in the state document is the version before the call plus one:
  the versions written, the version before the first call included, are strictly
  increasing and without repeats.
\<close>

theorem setState_versions_increase:
  assumes "currentPlayer w = Some cp" and "cpIsHost cp"
  shows "length (setStateCalls cs w) = length cs
    \<and> map storedVersion (setStateCalls cs w)
        = map (\<lambda>i. storedVersion w + 1 + int i) [0..<length cs]
    \<and> sorted_wrt (<) (storedVersion w # map storedVersion (setStateCalls cs w))
    \<and> distinct (storedVersion w # map storedVersion (setStateCalls cs w))"
proof -
  have m: "map storedVersion (setStateCalls cs w)
        = map (\<lambda>i. storedVersion w + 1 + int i) [0..<length cs]"
    using assms by (rule setStateCalls_versions)
  have l: "length (setStateCalls cs w) = length cs"
    using arg_cong [OF m, of length] by simp
  have s: "sorted_wrt (<) (storedVersion w # map storedVersion (setStateCalls cs w))"
    unfolding m using sorted_wrt_affine [of "storedVersion w + 1" "length cs"] by auto
  then have "distinct (storedVersion w # map storedVersion (setStateCalls cs w))"
    by (simp only: strict_sorted_iff)
  with m l s show ?thesis by blast
qed

text \<open>Three writes on the sample room, whose state document holds version 7.\<close>

theorem setState_versions_increase_witness:
  "currentPlayer votingWorld = Some hostPlayer \<and> cpIsHost hostPlayer
   \<and> map storedVersion
        (setStateCalls
           [(5001, VOTE_RESULT, [(''result'', JString ''tie'')]), (5002, MEETING_DISCUSSION, []),
            (5003, VOTING, [])]
           votingWorld) = [8, 9, 10]"
proof -
  have h: "currentPlayer votingWorld = Some hostPlayer" "cpIsHost hostPlayer"
    by (simp_all add: votingWorld_def hostPlayer_def)
  have v: "storedVersion votingWorld = 7"
    by (simp add: storedVersion_def votingWorld_def)
  show ?thesis
    using h v setState_versions_increase [OF h,
        of "[(5001, VOTE_RESULT, [(''result'', JString ''tie'')]), (5002, MEETING_DISCUSSION, []),
            (5003, VOTING, [])]"]
    by (simp add: upt_rec)
qed

lemma mergePayload_map_of:
  "distinct (map fst ad) \<Longrightarrow>
   map_of (mergePayload stored ad) k =
     (case map_of ad k of
        None \<Rightarrow> map_of stored k
      | Some v \<Rightarrow> Some (mergeField (map_of stored k) v))"
proof (induction ad arbitrary: stored)
  case Nil
  then show ?case by (simp add: mergePayload_def)
next
  case (Cons e ad)
  let ?s = "AList.update (fst e) (mergeField (map_of stored (fst e)) (snd e)) stored"
  have step: "mergePayload stored (e # ad) = mergePayload ?s ad"
    by (simp add: mergePayload_def)
  have d: "distinct (map fst ad)" and n: "fst e \<notin> fst ` set ad"
    using Cons.prems by simp_all
  have none: "map_of ad (fst e) = None"
    using n by (simp add: map_of_eq_None_iff)
  show ?case
  proof (cases "k = fst e")
    case True
    then show ?thesis
      using Cons.IH [OF d, of ?s] none by (simp add: step update_conv')
  next
    case False
    then have u: "map_of ?s k = map_of stored k"
      by (simp add: update_conv')
    show ?thesis
      using Cons.IH [OF d, of ?s] False
      by (simp add: step u split: option.splits)
  qed
qed

lemma payload_written:
  "distinct (map fst ad) \<Longrightarrow>
   map_of (payload (mergeGameState old ph t uid ad)) k =
     (case map_of ad k of
        None \<Rightarrow> (case old of None \<Rightarrow> None | Some g \<Rightarrow> map_of (payload g) k)
      | Some v \<Rightarrow>
          Some (mergeField (case old of None \<Rightarrow> None | Some g \<Rightarrow> map_of (payload g) k) v))"
  by (simp add: mergeGameState_def mergePayload_map_of split: option.splits)

lemma mergeGameState_fields:
  "phase (mergeGameState old ph t uid ad) = ph"
  "version (mergeGameState old ph t uid ad) = (case old of None \<Rightarrow> 0 | Some g \<Rightarrow> version g) + 1"
  "hostUid (mergeGameState old ph t uid ad) = uid"
  "updatedAt (mergeGameState old ph t uid ad) = t"
  "transitionId (mergeGameState old ph t uid ad) = Transition ph t"
  by (simp_all add: mergeGameState_def split: option.splits)

text \<open>
  C8. When the manager's player is not the host, every host-only operation returns
  without raising and leaves the manager and every document as they were; the
  aggregation checks, which gate their transition on the host flag, do the same.
\<close>

theorem nonhost_calls_write_nothing:
  assumes "currentPlayer w = Some cp" and "\<not> cpIsHost cp"
  shows "setState ph ad w = Inr w
    \<and> resetGameState w = Inr w
    \<and> processVotes w = Inr (w, None)
    \<and> processMorning w = Inr w
    \<and> startGame rnd w = Inr w
    \<and> updateSettings s w = Inr w
    \<and> kickPlayer playerId w = Inr w
    \<and> transitionToVoting w = Inr w
    \<and> transitionToBreak w = Inr w
    \<and> transitionToNight w = Inr w
    \<and> startMeetingTimer w = Inr w
    \<and> startBreakTimer w = Inr w
    \<and> startVotingTimer w = Inr w
    \<and> proceedAfterVote w = Inr w
    \<and> proceedAfterMorning w = Inr w
    \<and> map_sum id fst (checkAllPlayersReadRole w) = Inr w
    \<and> map_sum id fst (checkAllVoted w) = Inr w
    \<and> map_sum id fst (checkEDSubmitted w) = Inr w
    \<and> map_sum id fst (checkImpostorSubmitted w) = Inr w"
proof -
  have "setState ph ad w = Inr w" "resetGameState w = Inr w" "processVotes w = Inr (w, None)"
    "processMorning w = Inr w" "startGame rnd w = Inr w" "updateSettings s w = Inr w"
    "kickPlayer playerId w = Inr w"
    using assms
    by (simp_all add: setState_def resetGameState_def processVotes_def processMorning_def
        startGame_def updateSettings_def kickPlayer_def)
  moreover have "transitionToVoting w = Inr w" "transitionToBreak w = Inr w"
    "transitionToNight w = Inr w" "startMeetingTimer w = Inr w" "startBreakTimer w = Inr w"
    "startVotingTimer w = Inr w" "proceedAfterVote w = Inr w" "proceedAfterMorning w = Inr w"
    using assms
    by (simp_all add: transitionToVoting_def transitionToBreak_def transitionToNight_def
        startMeetingTimer_def startBreakTimer_def startVotingTimer_def proceedAfterVote_def
        proceedAfterMorning_def)
  moreover have "map_sum id fst (checkAllPlayersReadRole w) = Inr w"
    "map_sum id fst (checkAllVoted w) = Inr w"
    "map_sum id fst (checkEDSubmitted w) = Inr w"
    "map_sum id fst (checkImpostorSubmitted w) = Inr w"
    using assms
    by (simp_all add: checkAllPlayersReadRole_def checkAllVoted_def checkEDSubmitted_def
        checkImpostorSubmitted_def Let_def)
  ultimately show ?thesis by blast
qed

text \<open>The client of the non-host player of the sample room.\<close>

theorem nonhost_calls_write_nothing_witness:
  "currentPlayer guestWorld = Some guestPlayer \<and> \<not> cpIsHost guestPlayer
   \<and> setState VOTE_RESULT [(''result'', JString ''tie'')] guestWorld = Inr guestWorld
   \<and> resetGameState guestWorld = Inr guestWorld
   \<and> processVotes guestWorld = Inr (guestWorld, None)
   \<and> processMorning guestWorld = Inr guestWorld
   \<and> startGame (\<lambda>i. 0) guestWorld = Inr guestWorld
   \<and> updateSettings sampleSettings guestWorld = Inr guestWorld
   \<and> kickPlayer ''p3'' guestWorld = Inr guestWorld
   \<and> transitionToVoting guestWorld = Inr guestWorld
   \<and> transitionToNight guestWorld = Inr guestWorld
   \<and> proceedAfterVote guestWorld = Inr guestWorld"
proof -
  have h: "currentPlayer guestWorld = Some guestPlayer" "\<not> cpIsHost guestPlayer"
    by (simp_all add: guestWorld_def guestPlayer_def)
  show ?thesis
    using h nonhost_calls_write_nothing [OF h, of VOTE_RESULT "[(''result'', JString ''tie'')]"
        "\<lambda>i. 0" sampleSettings "''p3''"]
    by simp
qed

lemma delete_filter: "AList.delete k c = filter (\<lambda>d. fst d \<noteq> k) c"
  by (induction c) (auto simp add: AList.delete_eq)

lemma deleteAll_filter: "deleteAll snap col = filter (\<lambda>d. fst d \<notin> fst ` set snap) col"
proof (induction snap arbitrary: col)
  case Nil
  then show ?case by (simp add: deleteAll_def)
next
  case (Cons s snap)
  have "deleteAll (s # snap) col = deleteAll snap (AList.delete (fst s) col)"
    by (simp add: deleteAll_def)
  also have "\<dots> = filter (\<lambda>d. fst d \<notin> fst ` set snap) (filter (\<lambda>d. fst d \<noteq> fst s) col)"
    by (simp add: Cons.IH delete_filter)
  also have "\<dots> = filter (\<lambda>d. fst d \<notin> fst ` set (s # snap)) col"
    by (auto intro: filter_cong)
  finally show ?case .
qed

lemma deleteAll_self: "deleteAll col col = []"
  by (simp add: deleteAll_filter)

lemma resetPlayers_map:
  "resetPlayers snap col =
     map (\<lambda>d. if fst d \<in> fst ` set snap then (fst d, resetPlayer (snd d)) else d) col"
proof (induction snap arbitrary: col)
  case Nil
  then show ?case by (simp add: resetPlayers_def)
next
  case (Cons s snap)
  have "resetPlayers (s # snap) col = resetPlayers snap (updateData (fst s) resetPlayer col)"
    by (simp add: resetPlayers_def)
  also have "\<dots> = map (\<lambda>d. if fst d \<in> fst ` set (s # snap) then (fst d, resetPlayer (snd d)) else d) col"
    by (simp add: Cons.IH updateData_def resetPlayer_def)
  finally show ?case .
qed

lemma resetPlayers_self:
  "resetPlayers col col = map (\<lambda>d. (fst d, resetPlayer (snd d))) col"
  by (simp add: resetPlayers_map)

text \<open>
  C9. After the host's resetGameState on a room whose document exists: the state document
  is exactly phase LOBBY, version 0, the reset's transition id and time and the host's id,
  with no other field; every player document is the old one with isAlive true, role null
  and roleReadConfirmed false; the votes, night actions, death log and vote history are
  empty; the room has day 1 and status lobby; the timer entry is removed.
\<close>

theorem resetGameState_fresh_room:
  assumes "currentPlayer w = Some cp" and "cpIsHost cp" and "roomDoc w = Some r"
  shows "\<exists>w'. resetGameState w = Inr w'
    \<and> gameStateDoc w' =
        Some \<lparr>phase = LOBBY, version = 0, transitionId = Reset (now w), updatedAt = now w,
              hostUid = cpId cp, payload = []\<rparr>
    \<and> playersCol w' =
        map (\<lambda>d. (fst d, (snd d)\<lparr>isAlive := True, role := None, roleReadConfirmed := False\<rparr>))
          (playersCol w)
    \<and> list_all (\<lambda>d. isAlive (snd d) \<and> role (snd d) = None \<and> \<not> roleReadConfirmed (snd d))
        (playersCol w')
    \<and> votesCol w' = [] \<and> nightActionsCol w' = [] \<and> deathLogCol w' = []
    \<and> voteHistoryCol w' = []
    \<and> roomDoc w' = Some (r\<lparr>day := 1, status := ''lobby''\<rparr>)
    \<and> rtdbTimer w' = None"
  using assms
  by (simp add: resetGameState_def Let_def deleteAll_self resetPlayers_self resetPlayer_def
      list_all_iff)

text \<open>
  The sample room, reset in the voting phase of day 2: the victims field of the old
  state document, the death log and the votes are gone.
\<close>

theorem resetGameState_fresh_room_witness:
  "\<exists>w'. resetGameState votingWorld = Inr w'
    \<and> gameStateDoc w' =
        Some \<lparr>phase = LOBBY, version = 0, transitionId = Reset 5000, updatedAt = 5000,
              hostUid = ''h1'', payload = []\<rparr>
    \<and> map (\<lambda>d. (fst d, isAlive (snd d), role (snd d), roleReadConfirmed (snd d))) (playersCol w')
        = [(''h1'', True, None, False), (''p2'', True, None, False),
           (''p3'', True, None, False), (''p4'', True, None, False)]
    \<and> votesCol w' = [] \<and> nightActionsCol w' = [] \<and> deathLogCol w' = []
    \<and> voteHistoryCol w' = []
    \<and> roomDoc w' = Some \<lparr>status = ''lobby'', day = 1\<rparr>"
proof -
  have h: "currentPlayer votingWorld = Some hostPlayer" "cpIsHost hostPlayer"
    "roomDoc votingWorld = Some \<lparr>status = ''ingame'', day = 2\<rparr>"
    by (simp_all add: votingWorld_def hostPlayer_def)
  have v: "now votingWorld = 5000" "cpId hostPlayer = ''h1''"
    "map (\<lambda>d. (fst d, True, None, False)) (playersCol votingWorld)
        = [(''h1'', True, None, False), (''p2'', True, None, False),
           (''p3'', True, None, False), (''p4'', True, None, False)]"
    by (simp_all add: votingWorld_def hostPlayer_def)
  from resetGameState_fresh_room [OF h] obtain w' where
    "resetGameState votingWorld = Inr w'"
    "gameStateDoc w' =
        Some \<lparr>phase = LOBBY, version = 0, transitionId = Reset (now votingWorld),
              updatedAt = now votingWorld, hostUid = cpId hostPlayer, payload = []\<rparr>"
    "playersCol w' =
        map (\<lambda>d. (fst d, (snd d)\<lparr>isAlive := True, role := None, roleReadConfirmed := False\<rparr>))
          (playersCol votingWorld)"
    "votesCol w' = []" "nightActionsCol w' = []" "deathLogCol w' = []" "voteHistoryCol w' = []"
    "roomDoc w' = Some (\<lparr>status = ''ingame'', day = 2\<rparr>\<lparr>day := 1, status := ''lobby''\<rparr>)"
    by blast
  then show ?thesis
    using v by (simp add: comp_def)
qed

section \<open>Properties of the vote tally\<close>

lemma countVote_map_of:
  "map_of (countVote vc d) =
     (map_of vc)(snd d \<mapsto> (case map_of vc (snd d) of None \<Rightarrow> 0 | Some c \<Rightarrow> c) + 1)"
  by (simp add: countVote_def update_conv')

lemma foldl_countVote_map_of:
  "map_of (foldl countVote vc votes) t =
     (if votesFor t votes = 0 then map_of vc t
      else Some ((case map_of vc t of None \<Rightarrow> 0 | Some c \<Rightarrow> c) + votesFor t votes))"
proof (induction votes arbitrary: vc)
  case Nil
  then show ?case by (simp add: votesFor_def)
next
  case (Cons d votes)
  show ?case
    by (simp add: Cons.IH countVote_map_of votesFor_def split: option.splits)
qed

lemma foldl_countVote_distinct:
  "distinct (map fst vc) \<Longrightarrow> distinct (map fst (foldl countVote vc votes))"
  by (induction votes arbitrary: vc) (simp_all add: countVote_def distinct_update)

lemma voteCount_entries:
  "((k, c) \<in> set (foldl countVote [] votes)) = (c = votesFor k votes \<and> c \<noteq> 0)"
proof -
  have d: "distinct (map fst (foldl countVote [] votes))"
    by (rule foldl_countVote_distinct) simp
  have "((k, c) \<in> set (foldl countVote [] votes)) = (map_of (foldl countVote [] votes) k = Some c)"
    using d by simp
  then show ?thesis
    by (auto simp add: foldl_countVote_map_of)
qed

lemma plurality_inv:
  "case foldl pluralityStep (m, ts) es of (M, out) \<Rightarrow>
     m \<le> M \<and> (\<forall>e \<in> set es. snd e \<le> M) \<and> (M = m \<or> M \<in> snd ` set es)
     \<and> out = (if m < M then [] else ts) @ map fst (filter (\<lambda>e. snd e = M) es)"
proof (induction es arbitrary: m ts)
  case Nil
  then show ?case by simp
next
  case (Cons e es)
  consider (gt) "snd e > m" | (eq) "snd e = m" | (lt) "snd e < m" by linarith
  then show ?case
  proof cases
    case gt
    then have s: "pluralityStep (m, ts) e = (snd e, [fst e])"
      by (simp add: pluralityStep_def)
    show ?thesis
      using Cons.IH [of "snd e" "[fst e]"] gt
      by (auto simp add: s split: prod.splits)
  next
    case eq
    then have s: "pluralityStep (m, ts) e = (m, ts @ [fst e])"
      by (simp add: pluralityStep_def)
    show ?thesis
      using Cons.IH [of m "ts @ [fst e]"] eq
      by (auto simp add: s split: prod.splits)
  next
    case lt
    then have s: "pluralityStep (m, ts) e = (m, ts)"
      by (simp add: pluralityStep_def)
    show ?thesis
      using Cons.IH [of m ts] lt
      by (auto simp add: s split: prod.splits)
  qed
qed


lemma tallyVotes_props:
  assumes ne: "votes \<noteq> []" and tv: "tallyVotes votes = (voteCount, maxVotes, targets)"
  shows "\<forall>t. map_of voteCount t = (if votesFor t votes = 0 then None else Some (votesFor t votes))"
    and "\<forall>t. votesFor t votes \<le> maxVotes"
    and "0 < maxVotes"
    and "set targets = {t. votesFor t votes = maxVotes}"
    and "distinct targets"
    and "targets \<noteq> []"
proof -
  have vc: "voteCount = foldl countVote [] votes"
    and pl: "foldl pluralityStep (0, []) voteCount = (maxVotes, targets)"
    using tv by (auto simp add: tallyVotes_def Let_def)
  show a: "\<forall>t. map_of voteCount t = (if votesFor t votes = 0 then None else Some (votesFor t votes))"
    by (simp add: vc foldl_countVote_map_of)
  have ent: "\<And>k c. ((k, c) \<in> set voteCount) = (c = votesFor k votes \<and> c \<noteq> 0)"
    by (simp add: vc voteCount_entries)
  have d: "distinct (map fst voteCount)"
    unfolding vc by (rule foldl_countVote_distinct) simp
  from plurality_inv [where m = 0 and ts = "[]" and es = voteCount] pl
  have le: "\<forall>e \<in> set voteCount. snd e \<le> maxVotes"
    and mem: "maxVotes = 0 \<or> maxVotes \<in> snd ` set voteCount"
    and tg: "targets = map fst (filter (\<lambda>e. snd e = maxVotes) voteCount)"
    by simp_all
  obtain v rest where "votes = v # rest"
    using ne by (cases votes) auto
  then have "votesFor (snd v) votes \<noteq> 0"
    by (simp add: votesFor_def)
  then have "(snd v, votesFor (snd v) votes) \<in> set voteCount"
    by (simp add: ent)
  with le have "votesFor (snd v) votes \<le> maxVotes"
    by fastforce
  with \<open>votesFor (snd v) votes \<noteq> 0\<close> show pos: "0 < maxVotes"
    by simp
  show "\<forall>t. votesFor t votes \<le> maxVotes"
  proof
    fix t
    show "votesFor t votes \<le> maxVotes"
    proof (cases "votesFor t votes = 0")
      case True
      then show ?thesis by simp
    next
      case False
      then have "(t, votesFor t votes) \<in> set voteCount"
        by (simp add: ent)
      with le show ?thesis by fastforce
    qed
  qed
  have "set targets = {k. (k, maxVotes) \<in> set voteCount}"
    unfolding tg by force
  then show st: "set targets = {t. votesFor t votes = maxVotes}"
    using pos by (auto simp add: ent)
  show "distinct targets"
    unfolding tg using d by (rule distinct_map_filter)
  from mem pos obtain k where "(k, maxVotes) \<in> set voteCount"
    by auto
  then have "k \<in> set targets"
    using \<open>set targets = {k. (k, maxVotes) \<in> set voteCount}\<close> by simp
  then show "targets \<noteq> []"
    by auto
qed

lemma processVotes_tie:
  assumes "currentPlayer w = Some cp" and "cpIsHost cp"
    and "tallyVotes (votesCol w) = (voteCount, maxVotes, targets)"
    and "length targets > 1"
  shows "processVotes w =
     Inr (w\<lparr>gameStateDoc := Some (mergeGameState (gameStateDoc w) VOTE_RESULT (now w) (cpId cp)
             [(''result'', JString ''tie''), (''tiedPlayers'', JStringList targets),
              (''voteCounts'', JCounts voteCount)])\<rparr>, Some (Tie targets))"
  using assms by (simp add: processVotes_def Let_def setState_def andThen_def)

lemma processVotes_killed:
  assumes "currentPlayer w = Some cp" and "cpIsHost cp" and "roomDoc w = Some r"
    and "tallyVotes (votesCol w) = (voteCount, maxVotes, targets)"
    and "targets = [victim]"
  shows "\<exists>w' g nm. processVotes w = Inr (w', Some (Killed victim nm))
     \<and> gameStateDoc w' = Some g \<and> phase g = VOTE_RESULT
     \<and> version g = storedVersion w + 1
     \<and> map_of (payload g) ''result'' = Some (JString ''killed'')
     \<and> map_of (payload g) ''victimId'' = Some (JString victim)"
proof (cases "map_of (playersCol w) victim")
  case None
  with assms show ?thesis
    by (simp add: processVotes_def Let_def setState_def andThen_def archiveVotes_def
        firstTarget_def payload_written storedVersion_def mergeGameState_fields)
next
  case (Some p)
  with assms show ?thesis
    by (simp add: processVotes_def Let_def setState_def andThen_def archiveVotes_def
        firstTarget_def payload_written storedVersion_def mergeGameState_fields)
qed


text \<open>
  C3. For every non-empty set of votes processed by the host: the vote count object holds
  for each target the number of votes it received; maxVotes is the largest of these
  numbers; targets are exactly the targets that received maxVotes votes, each once. With
  more than one such target processVotes returns a tie that reports these targets (and
  writes them as tiedPlayers); otherwise there is exactly one and processVotes returns
  killed for it.
\<close>

theorem processVotes_tally:
  assumes "currentPlayer w = Some cp" and "cpIsHost cp" and "roomDoc w = Some r"
    and "votesCol w \<noteq> []"
    and "tallyVotes (votesCol w) = (voteCount, maxVotes, targets)"
  shows "(\<forall>t. map_of voteCount t =
            (if votesFor t (votesCol w) = 0 then None else Some (votesFor t (votesCol w))))
    \<and> (\<forall>t. votesFor t (votesCol w) \<le> maxVotes) \<and> 0 < maxVotes
    \<and> set targets = {t. votesFor t (votesCol w) = maxVotes} \<and> distinct targets
    \<and> targets \<noteq> []
    \<and> (length targets > 1 \<longrightarrow>
         (\<exists>w' g. processVotes w = Inr (w', Some (Tie targets))
            \<and> gameStateDoc w' = Some g \<and> phase g = VOTE_RESULT
            \<and> map_of (payload g) ''result'' = Some (JString ''tie'')
            \<and> map_of (payload g) ''tiedPlayers'' = Some (JStringList targets)))
    \<and> (\<not> length targets > 1 \<longrightarrow>
         (\<exists>victim w' g nm. targets = [victim]
            \<and> processVotes w = Inr (w', Some (Killed victim nm))
            \<and> gameStateDoc w' = Some g \<and> phase g = VOTE_RESULT
            \<and> map_of (payload g) ''result'' = Some (JString ''killed'')
            \<and> map_of (payload g) ''victimId'' = Some (JString victim)))"
proof -
  note p = tallyVotes_props [OF assms(4) assms(5)]
  have tie: "length targets > 1 \<longrightarrow>
         (\<exists>w' g. processVotes w = Inr (w', Some (Tie targets))
            \<and> gameStateDoc w' = Some g \<and> phase g = VOTE_RESULT
            \<and> map_of (payload g) ''result'' = Some (JString ''tie'')
            \<and> map_of (payload g) ''tiedPlayers'' = Some (JStringList targets))"
    using processVotes_tie [OF assms(1) assms(2) assms(5)]
    by (simp add: payload_written mergeGameState_fields)
  have kill: "\<not> length targets > 1 \<longrightarrow>
         (\<exists>victim w' g nm. targets = [victim]
            \<and> processVotes w = Inr (w', Some (Killed victim nm))
            \<and> gameStateDoc w' = Some g \<and> phase g = VOTE_RESULT
            \<and> map_of (payload g) ''result'' = Some (JString ''killed'')
            \<and> map_of (payload g) ''victimId'' = Some (JString victim))"
  proof
    assume "\<not> length targets > 1"
    with p(6) obtain victim where t: "targets = [victim]"
      by (cases targets) auto
    from processVotes_killed [OF assms(1) assms(2) assms(3) assms(5) t]
    show "\<exists>victim w' g nm. targets = [victim]
            \<and> processVotes w = Inr (w', Some (Killed victim nm))
            \<and> gameStateDoc w' = Some g \<and> phase g = VOTE_RESULT
            \<and> map_of (payload g) ''result'' = Some (JString ''killed'')
            \<and> map_of (payload g) ''victimId'' = Some (JString victim)"
      using t by blast
  qed
  from p tie kill show ?thesis by blast
qed

text \<open>
  The two examples: votes \<^verbatim>\<open>{A:2, B:2, C:1}\<close> give a tie between \<^verbatim>\<open>A\<close> and
  \<^verbatim>\<open>B\<close>, votes \<^verbatim>\<open>{A:3, B:1}\<close> give killed \<^verbatim>\<open>A\<close>.
\<close>

lemma tallyVotes_tiedVotes:
  "tallyVotes tiedVotes = ([(''B'', 2), (''A'', 2), (''C'', 1)], 2, [''B'', ''A''])"
  by (simp add: tallyVotes_def tiedVotes_def countVote_def pluralityStep_def)

lemma tallyVotes_decidedVotes:
  "tallyVotes decidedVotes = ([(''B'', 1), (''A'', 3)], 3, [''A''])"
  by (simp add: tallyVotes_def decidedVotes_def countVote_def pluralityStep_def)

theorem processVotes_tally_witness:
  "(\<exists>w'. processVotes (ballotWorld tiedVotes) = Inr (w', Some (Tie [''B'', ''A''])))
   \<and> set [''B'', ''A''] = {t. votesFor t tiedVotes = 2}
   \<and> (\<exists>w' nm. processVotes (ballotWorld decidedVotes) = Inr (w', Some (Killed ''A'' nm)))"
proof -
  have h: "currentPlayer (ballotWorld vs) = Some hostAnn" "cpIsHost hostAnn"
    "roomDoc (ballotWorld vs) = Some \<lparr>status = ''ingame'', day = 1\<rparr>"
    "votesCol (ballotWorld vs) = vs" for vs
    by (simp_all add: ballotWorld_def roomOfFive_def hostAnn_def)
  have n1: "votesCol (ballotWorld tiedVotes) \<noteq> []"
    by (simp add: h tiedVotes_def)
  have n2: "votesCol (ballotWorld decidedVotes) \<noteq> []"
    by (simp add: h decidedVotes_def)
  have t1: "tallyVotes (votesCol (ballotWorld tiedVotes))
      = ([(''B'', 2), (''A'', 2), (''C'', 1)], 2, [''B'', ''A''])"
    by (simp only: h tallyVotes_tiedVotes)
  have t2: "tallyVotes (votesCol (ballotWorld decidedVotes)) = ([(''B'', 1), (''A'', 3)], 3, [''A''])"
    by (simp only: h tallyVotes_decidedVotes)
  note th1 = processVotes_tally [OF h(1) h(2) h(3) n1 t1]
  note th2 = processVotes_tally [OF h(1) h(2) h(3) n2 t2]
  have s: "set [''B'', ''A''] = {t. votesFor t (votesCol (ballotWorld tiedVotes)) = 2}"
    using th1 by (elim conjE)
  have "length [''B'', ''A''] > 1 \<longrightarrow>
         (\<exists>w' g. processVotes (ballotWorld tiedVotes) = Inr (w', Some (Tie [''B'', ''A'']))
            \<and> gameStateDoc w' = Some g \<and> phase g = VOTE_RESULT
            \<and> map_of (payload g) ''result'' = Some (JString ''tie'')
            \<and> map_of (payload g) ''tiedPlayers'' = Some (JStringList [''B'', ''A'']))"
    using th1 by (elim conjE)
  then have a: "\<exists>w'. processVotes (ballotWorld tiedVotes) = Inr (w', Some (Tie [''B'', ''A'']))"
    by auto
  have "\<not> length [''A''] > 1 \<longrightarrow>
         (\<exists>victim w' g nm. [''A''] = [victim]
            \<and> processVotes (ballotWorld decidedVotes) = Inr (w', Some (Killed victim nm))
            \<and> gameStateDoc w' = Some g \<and> phase g = VOTE_RESULT
            \<and> map_of (payload g) ''result'' = Some (JString ''killed'')
            \<and> map_of (payload g) ''victimId'' = Some (JString victim))"
    using th2 by (elim conjE)
  then have b: "\<exists>w' nm. processVotes (ballotWorld decidedVotes) = Inr (w', Some (Killed ''A'' nm))"
    by auto
  from a b s show ?thesis by (simp only: h)
qed


text \<open>
  C10. On an empty set of votes the tally leaves maxVotes at 0 and targets empty, the
  tie test fails, and \<^verbatim>\<open>targets[0]\<close> is undefined: no branch of processVotes guards
  the case, and the host's call goes down the kill path, where it archives (raising on a
  missing room document) and then builds the victim's document reference from the
  undefined id.
\<close>

theorem processVotes_empty_votes:
  "tallyVotes [] = ([], 0, [])
   \<and> \<not> length (snd (snd (tallyVotes []))) > 1
   \<and> firstTarget (snd (snd (tallyVotes []))) = None
   \<and> (currentPlayer w = Some cp \<and> cpIsHost cp \<and> votesCol w = [] \<longrightarrow>
        processVotes w =
          (case roomDoc w of None \<Rightarrow> Inl (TypeError, w) | Some r \<Rightarrow> Inl (InvalidPath, w)))"
  by (simp add: tallyVotes_def firstTarget_def processVotes_def archiveVotes_def andThen_def
      split: option.splits)

text \<open>The sample room with no votes: the call ends in the kill path's failure.\<close>

theorem processVotes_empty_votes_witness:
  "currentPlayer (ballotWorld []) = Some hostAnn \<and> cpIsHost hostAnn
   \<and> votesCol (ballotWorld []) = []
   \<and> processVotes (ballotWorld []) = Inl (InvalidPath, ballotWorld [])"
proof -
  have h: "currentPlayer (ballotWorld []) = Some hostAnn \<and> cpIsHost hostAnn
      \<and> votesCol (ballotWorld []) = []"
    and r: "roomDoc (ballotWorld []) = Some \<lparr>status = ''ingame'', day = 1\<rparr>"
    by (simp_all add: ballotWorld_def roomOfFive_def hostAnn_def)
  from processVotes_empty_votes [of "ballotWorld []" hostAnn] h r show ?thesis
    by simp
qed


section \<open>Properties of the night resolution\<close>

lemma foldl_engineerStep:
  "foldl (engineerStep players) victims actionsSnap = victims @ engineerVictims players actionsSnap"
  by (induction actionsSnap arbitrary: victims)
     (simp_all add: engineerStep_def engineerVictims_def isLivingBug_def split: option.splits)

lemma isProtected_foldl:
  "foldl (\<lambda>p d. if actionType (snd d) = ''fallen_angel'' \<and> targetId (snd d) = tid then True else p)
     b actionsSnap = (b \<or> hasProtector tid actionsSnap)"
  by (induction actionsSnap arbitrary: b) (auto simp add: hasProtector_def)

lemma isProtected_eq: "isProtected tid actionsSnap = hasProtector tid actionsSnap"
  by (simp add: isProtected_def isProtected_foldl)

lemma find_victim_None:
  "(find (\<lambda>v. fst v = tid) victims = None) = (tid \<notin> fst ` set victims)"
  by (induction victims) auto

lemma nightVictims_eq:
  "nightVictims t actionsSnap players =
     engineerVictims players actionsSnap @
       (case impostorTarget t actionsSnap of
          None \<Rightarrow> []
        | Some tid \<Rightarrow> if impostorKills players actionsSnap tid then [(tid, ''impostor'')] else [])"
proof (cases "impostorTarget t actionsSnap")
  case None
  then show ?thesis
    by (simp add: nightVictims_def Let_def foldl_engineerStep)
next
  case (Some tid)
  show ?thesis
  proof (cases "players tid")
    case None
    with Some show ?thesis
      by (simp add: nightVictims_def Let_def foldl_engineerStep impostorKills_def)
  next
    case (Some target)
    with \<open>impostorTarget t actionsSnap = Some tid\<close> show ?thesis
      by (simp add: nightVictims_def Let_def foldl_engineerStep impostorKills_def isProtected_eq
          find_victim_None del: image_iff)
  qed
qed

lemma impostorStep_running:
  assumes "\<forall>d \<in> set actionsSnap. actionType (snd d) = ''impostor'' \<longrightarrow> 0 < submittedMillis t (snd d)"
    and "0 < e"
  shows "\<exists>y e'. foldl (impostorStep t) (Some x, Some e) actionsSnap = (Some y, Some e')
     \<and> 0 < e' \<and> e' \<le> e
     \<and> (\<forall>b \<in> set (impostorActions actionsSnap). e' \<le> submittedMillis t (snd b))
     \<and> ((y = x \<and> e' = e)
         \<or> (\<exists>a \<in> set (impostorActions actionsSnap).
               y = targetId (snd a) \<and> e' = submittedMillis t (snd a)))"
  using assms
proof (induction actionsSnap arbitrary: x e)
  case Nil
  then show ?case by (simp add: impostorActions_def)
next
  case (Cons d ds)
  have rest: "\<forall>d \<in> set ds. actionType (snd d) = ''impostor'' \<longrightarrow> 0 < submittedMillis t (snd d)"
    using Cons.prems(1) by simp
  show ?case
  proof (cases "actionType (snd d) = ''impostor''")
    case False
    then have s: "impostorStep t (Some x, Some e) d = (Some x, Some e)"
      by (simp add: impostorStep_def)
    from Cons.IH [OF rest Cons.prems(2), of x] False show ?thesis
      by (simp add: s impostorActions_def)
  next
    case True
    let ?m = "submittedMillis t (snd d)"
    have pos: "0 < ?m" using Cons.prems(1) True by simp
    show ?thesis
    proof (cases "?m < e")
      case lt: True
      then have s: "impostorStep t (Some x, Some e) d = (Some (targetId (snd d)), Some ?m)"
        using True by (simp add: impostorStep_def)
      from Cons.IH [OF rest pos, of "targetId (snd d)"]
      obtain y e' where r: "foldl (impostorStep t) (Some (targetId (snd d)), Some ?m) ds = (Some y, Some e')"
        "0 < e'" "e' \<le> ?m"
        "\<forall>b \<in> set (impostorActions ds). e' \<le> submittedMillis t (snd b)"
        "(y = targetId (snd d) \<and> e' = ?m)
           \<or> (\<exists>a \<in> set (impostorActions ds). y = targetId (snd a) \<and> e' = submittedMillis t (snd a))"
        by blast
      from r lt True show ?thesis
        by (auto simp add: s impostorActions_def)
    next
      case ge: False
      then have s: "impostorStep t (Some x, Some e) d = (Some x, Some e)"
        using True Cons.prems(2) by (simp add: impostorStep_def)
      from Cons.IH [OF rest Cons.prems(2), of x]
      obtain y e' where r: "foldl (impostorStep t) (Some x, Some e) ds = (Some y, Some e')"
        "0 < e'" "e' \<le> e"
        "\<forall>b \<in> set (impostorActions ds). e' \<le> submittedMillis t (snd b)"
        "(y = x \<and> e' = e)
           \<or> (\<exists>a \<in> set (impostorActions ds). y = targetId (snd a) \<and> e' = submittedMillis t (snd a))"
        by blast
      from r ge True show ?thesis
        by (auto simp add: s impostorActions_def)
    qed
  qed
qed

lemma impostorStep_start:
  assumes "\<forall>d \<in> set actionsSnap. actionType (snd d) = ''impostor'' \<longrightarrow> 0 < submittedMillis t (snd d)"
  shows "(impostorActions actionsSnap = [] \<longrightarrow>
            foldl (impostorStep t) (None, None) actionsSnap = (None, None))
     \<and> (impostorActions actionsSnap \<noteq> [] \<longrightarrow>
          (\<exists>a \<in> set (impostorActions actionsSnap).
             fst (foldl (impostorStep t) (None, None) actionsSnap) = Some (targetId (snd a))
             \<and> (\<forall>b \<in> set (impostorActions actionsSnap).
                   submittedMillis t (snd a) \<le> submittedMillis t (snd b))))"
  using assms
proof (induction actionsSnap)
  case Nil
  then show ?case by (simp add: impostorActions_def)
next
  case (Cons d ds)
  have rest: "\<forall>d \<in> set ds. actionType (snd d) = ''impostor'' \<longrightarrow> 0 < submittedMillis t (snd d)"
    using Cons.prems by simp
  show ?case
  proof (cases "actionType (snd d) = ''impostor''")
    case False
    then have s: "impostorStep t (None, None) d = (None, None)"
      by (simp add: impostorStep_def)
    from Cons.IH [OF rest] False show ?thesis
      by (simp add: s impostorActions_def)
  next
    case True
    let ?m = "submittedMillis t (snd d)"
    have pos: "0 < ?m" using Cons.prems True by simp
    have s: "impostorStep t (None, None) d = (Some (targetId (snd d)), Some ?m)"
      using True by (simp add: impostorStep_def)
    from impostorStep_running [OF rest pos, of "targetId (snd d)"]
    obtain y e' where r: "foldl (impostorStep t) (Some (targetId (snd d)), Some ?m) ds = (Some y, Some e')"
      "0 < e'" "e' \<le> ?m"
      "\<forall>b \<in> set (impostorActions ds). e' \<le> submittedMillis t (snd b)"
      "(y = targetId (snd d) \<and> e' = ?m)
         \<or> (\<exists>a \<in> set (impostorActions ds). y = targetId (snd a) \<and> e' = submittedMillis t (snd a))"
      by blast
    from r True show ?thesis
      by (auto simp add: s impostorActions_def)
  qed
qed

lemma foldl_applyDeath_frame:
  "currentPlayer (foldl (applyDeath pl d) w vs) = currentPlayer w
   \<and> now (foldl (applyDeath pl d) w vs) = now w
   \<and> roomDoc (foldl (applyDeath pl d) w vs) = roomDoc w
   \<and> gameStateDoc (foldl (applyDeath pl d) w vs) = gameStateDoc w"
  by (induction vs arbitrary: w) (simp_all add: applyDeath_def)

lemma foldl_applyDeath_deathLog:
  "fst ` set (deathLogCol (foldl (applyDeath pl d) w vs)) = fst ` set (deathLogCol w) \<union> fst ` set vs"
proof (induction vs arbitrary: w)
  case Nil
  then show ?case by simp
next
  case (Cons v vs)
  have "fst ` set (deathLogCol (applyDeath pl d w v)) = insert (fst v) (fst ` set (deathLogCol w))"
    by (simp add: applyDeath_def dom_update)
  then show ?case
    by (simp add: Cons.IH)
qed

lemma foldl_applyDeath_players:
  "playersCol (foldl (applyDeath pl d) w vs) =
     map (\<lambda>p. if fst p \<in> fst ` set vs then (fst p, (snd p)\<lparr>isAlive := False\<rparr>) else p)
       (playersCol w)"
proof (induction vs arbitrary: w)
  case Nil
  then show ?case by simp
next
  case (Cons v vs)
  have "playersCol (applyDeath pl d w v) = updateData (fst v) (\<lambda>p. p\<lparr>isAlive := False\<rparr>) (playersCol w)"
    by (simp add: applyDeath_def)
  then show ?case
    by (simp add: Cons.IH updateData_def)
qed

lemma processMorning_host:
  assumes "currentPlayer w = Some cp" and "cpIsHost cp" and "roomDoc w = Some r"
  shows "\<exists>w' g. processMorning w = Inr w'
     \<and> playersCol w' =
         map (\<lambda>p. if fst p \<in> fst ` set (nightVictims (now w) (nightActionsCol w) (map_of (playersCol w)))
                   then (fst p, (snd p)\<lparr>isAlive := False\<rparr>) else p)
           (playersCol w)
     \<and> fst ` set (deathLogCol w') =
         fst ` set (deathLogCol w)
           \<union> fst ` set (nightVictims (now w) (nightActionsCol w) (map_of (playersCol w)))
     \<and> roomDoc w' = Some (r\<lparr>day := day r + 1\<rparr>)
     \<and> gameStateDoc w' = Some g \<and> phase g = MORNING_ANNOUNCEMENT
     \<and> map_of (payload g) ''victims''
         = Some (JStringList (map fst (nightVictims (now w) (nightActionsCol w) (map_of (playersCol w)))))"
  using assms
  by (simp add: processMorning_def Let_def setState_def foldl_applyDeath_frame
      foldl_applyDeath_deathLog foldl_applyDeath_players payload_written mergeGameState_fields)

text \<open>
  C5. processMorning computes the victim list in a fixed order. First come the targets of
  the engineer actions whose target is alive with role bug, each with cause bug_death.
  The impostors' target is the target of an impostor action whose submission time is the
  earliest of all impostor actions (none when there is no impostor action). That target
  follows with cause impostor exactly when it names a player who is alive, is not among
  the victims of the first step, is not the target of a fallen_angel action and does not
  have role bug; else nothing is added. The host's call marks exactly the victims dead,
  writes a death-log entry for exactly the victims and announces them. Submission times
  are milliseconds since 1970, taken as positive.
\<close>

theorem processMorning_victims:
  assumes "\<forall>d \<in> set (nightActionsCol w).
      actionType (snd d) = ''impostor'' \<longrightarrow> 0 < submittedMillis (now w) (snd d)"
  shows "nightVictims (now w) (nightActionsCol w) (map_of (playersCol w)) =
      engineerVictims (map_of (playersCol w)) (nightActionsCol w) @
        (case impostorTarget (now w) (nightActionsCol w) of
           None \<Rightarrow> []
         | Some tid \<Rightarrow>
             if impostorKills (map_of (playersCol w)) (nightActionsCol w) tid
             then [(tid, ''impostor'')] else [])
    \<and> (impostorActions (nightActionsCol w) = [] \<longrightarrow>
         impostorTarget (now w) (nightActionsCol w) = None)
    \<and> (impostorActions (nightActionsCol w) \<noteq> [] \<longrightarrow>
         (\<exists>a \<in> set (impostorActions (nightActionsCol w)).
            impostorTarget (now w) (nightActionsCol w) = Some (targetId (snd a))
            \<and> (\<forall>b \<in> set (impostorActions (nightActionsCol w)).
                  submittedMillis (now w) (snd a) \<le> submittedMillis (now w) (snd b))))
    \<and> (currentPlayer w = Some cp \<and> cpIsHost cp \<and> roomDoc w = Some r \<longrightarrow>
         (\<exists>w' g. processMorning w = Inr w'
            \<and> playersCol w' =
                map (\<lambda>p. if fst p \<in> fst ` set (nightVictims (now w) (nightActionsCol w)
                                                  (map_of (playersCol w)))
                          then (fst p, (snd p)\<lparr>isAlive := False\<rparr>) else p)
                  (playersCol w)
            \<and> fst ` set (deathLogCol w') =
                fst ` set (deathLogCol w)
                  \<union> fst ` set (nightVictims (now w) (nightActionsCol w) (map_of (playersCol w)))
            \<and> gameStateDoc w' = Some g \<and> phase g = MORNING_ANNOUNCEMENT
            \<and> map_of (payload g) ''victims''
                = Some (JStringList (map fst (nightVictims (now w) (nightActionsCol w)
                                               (map_of (playersCol w)))))))"
proof -
  note s = impostorStep_start [OF assms]
  have a: "impostorActions (nightActionsCol w) = [] \<longrightarrow>
         impostorTarget (now w) (nightActionsCol w) = None"
    using s by (simp add: impostorTarget_def)
  have b: "impostorActions (nightActionsCol w) \<noteq> [] \<longrightarrow>
         (\<exists>a \<in> set (impostorActions (nightActionsCol w)).
            impostorTarget (now w) (nightActionsCol w) = Some (targetId (snd a))
            \<and> (\<forall>b \<in> set (impostorActions (nightActionsCol w)).
                  submittedMillis (now w) (snd a) \<le> submittedMillis (now w) (snd b)))"
    using s by (simp add: impostorTarget_def)
  have c: "currentPlayer w = Some cp \<and> cpIsHost cp \<and> roomDoc w = Some r \<longrightarrow>
         (\<exists>w' g. processMorning w = Inr w'
            \<and> playersCol w' =
                map (\<lambda>p. if fst p \<in> fst ` set (nightVictims (now w) (nightActionsCol w)
                                                  (map_of (playersCol w)))
                          then (fst p, (snd p)\<lparr>isAlive := False\<rparr>) else p)
                  (playersCol w)
            \<and> fst ` set (deathLogCol w') =
                fst ` set (deathLogCol w)
                  \<union> fst ` set (nightVictims (now w) (nightActionsCol w) (map_of (playersCol w)))
            \<and> gameStateDoc w' = Some g \<and> phase g = MORNING_ANNOUNCEMENT
            \<and> map_of (payload g) ''victims''
                = Some (JStringList (map fst (nightVictims (now w) (nightActionsCol w)
                                               (map_of (playersCol w))))))"
  proof
    assume h: "currentPlayer w = Some cp \<and> cpIsHost cp \<and> roomDoc w = Some r"
    then have "currentPlayer w = Some cp" "cpIsHost cp" "roomDoc w = Some r" by simp_all
    from processMorning_host [OF this]
    show "\<exists>w' g. processMorning w = Inr w'
            \<and> playersCol w' =
                map (\<lambda>p. if fst p \<in> fst ` set (nightVictims (now w) (nightActionsCol w)
                                                  (map_of (playersCol w)))
                          then (fst p, (snd p)\<lparr>isAlive := False\<rparr>) else p)
                  (playersCol w)
            \<and> fst ` set (deathLogCol w') =
                fst ` set (deathLogCol w)
                  \<union> fst ` set (nightVictims (now w) (nightActionsCol w) (map_of (playersCol w)))
            \<and> gameStateDoc w' = Some g \<and> phase g = MORNING_ANNOUNCEMENT
            \<and> map_of (payload g) ''victims''
                = Some (JStringList (map fst (nightVictims (now w) (nightActionsCol w)
                                               (map_of (playersCol w)))))"
      by blast
  qed
  from nightVictims_eq [of "now w" "nightActionsCol w" "map_of (playersCol w)"] a b c
  show ?thesis by blast
qed

text \<open>
  The sample nights: the engineer removes the bug \<^verbatim>\<open>E\<close> and the earlier impostor
  action kills \<^verbatim>\<open>A\<close>; with a fallen angel on \<^verbatim>\<open>A\<close> only the bug dies.
\<close>

lemma sampleNight_parts:
  "engineerVictims (map_of fivePlayers) sampleNight = [(''E'', ''bug_death'')]"
  "impostorTarget 5000 sampleNight = Some ''A''"
  "impostorKills (map_of fivePlayers) sampleNight ''A''"
  by (simp_all add: engineerVictims_def impostorTarget_def impostorKills_def sampleNight_def
      mkAction_def fivePlayers_def mkPlayer_def isLivingBug_def impostorStep_def
      submittedMillis_def hasProtector_def)

lemma protectedNight_parts:
  "engineerVictims (map_of fivePlayers) protectedNight = [(''E'', ''bug_death'')]"
  "impostorTarget 5000 protectedNight = Some ''A''"
  "\<not> impostorKills (map_of fivePlayers) protectedNight ''A''"
  by (simp_all add: engineerVictims_def impostorTarget_def impostorKills_def sampleNight_def
      protectedNight_def mkAction_def fivePlayers_def mkPlayer_def isLivingBug_def
      impostorStep_def submittedMillis_def hasProtector_def)

theorem processMorning_victims_witness:
  "nightVictims 5000 sampleNight (map_of fivePlayers) = [(''E'', ''bug_death''), (''A'', ''impostor'')]
   \<and> nightVictims 5000 protectedNight (map_of fivePlayers) = [(''E'', ''bug_death'')]
   \<and> impostorTarget 5000 sampleNight = Some ''A''
   \<and> (\<exists>w'. processMorning (nightWorld sampleNight) = Inr w'
         \<and> fst ` set (deathLogCol w') = {''E'', ''A''})"
proof -
  have f: "now (nightWorld acts) = 5000" "nightActionsCol (nightWorld acts) = acts"
    "playersCol (nightWorld acts) = fivePlayers"
    "currentPlayer (nightWorld acts) = Some hostAnn" "cpIsHost hostAnn"
    "roomDoc (nightWorld acts) = Some \<lparr>status = ''ingame'', day = 1\<rparr>"
    "deathLogCol (nightWorld acts) = []" for acts
    by (simp_all add: nightWorld_def roomOfFive_def hostAnn_def)
  have p1: "\<forall>d \<in> set (nightActionsCol (nightWorld sampleNight)).
      actionType (snd d) = ''impostor'' \<longrightarrow> 0 < submittedMillis (now (nightWorld sampleNight)) (snd d)"
    by (simp add: f sampleNight_def mkAction_def submittedMillis_def)
  have p2: "\<forall>d \<in> set (nightActionsCol (nightWorld protectedNight)).
      actionType (snd d) = ''impostor'' \<longrightarrow> 0 < submittedMillis (now (nightWorld protectedNight)) (snd d)"
    by (simp add: f sampleNight_def protectedNight_def mkAction_def submittedMillis_def)
  note t1 = processMorning_victims [OF p1, of hostAnn "\<lparr>status = ''ingame'', day = 1\<rparr>"]
  note t2 = processMorning_victims [OF p2, of hostAnn "\<lparr>status = ''ingame'', day = 1\<rparr>"]
  have v1: "nightVictims 5000 sampleNight (map_of fivePlayers)
      = [(''E'', ''bug_death''), (''A'', ''impostor'')]"
    using t1 [THEN conjunct1] by (simp add: f sampleNight_parts)
  have v2: "nightVictims 5000 protectedNight (map_of fivePlayers) = [(''E'', ''bug_death'')]"
    using t2 [THEN conjunct1] by (simp add: f protectedNight_parts)
  have "\<exists>w' g. processMorning (nightWorld sampleNight) = Inr w'
      \<and> playersCol w' =
          map (\<lambda>p. if fst p \<in> fst ` set (nightVictims 5000 sampleNight (map_of fivePlayers))
                    then (fst p, (snd p)\<lparr>isAlive := False\<rparr>) else p) fivePlayers
      \<and> fst ` set (deathLogCol w') =
          fst ` set (nightVictims 5000 sampleNight (map_of fivePlayers))
      \<and> gameStateDoc w' = Some g \<and> phase g = MORNING_ANNOUNCEMENT
      \<and> map_of (payload g) ''victims''
          = Some (JStringList (map fst (nightVictims 5000 sampleNight (map_of fivePlayers))))"
    using t1 [THEN conjunct2, THEN conjunct2, THEN conjunct2]
    by (simp add: f)
  then have "\<exists>w'. processMorning (nightWorld sampleNight) = Inr w'
         \<and> fst ` set (deathLogCol w') = {''E'', ''A''}"
    unfolding v1 by auto
  with v1 v2 sampleNight_parts(2) show ?thesis by blast
qed

section \<open>Repeated aggregation checks\<close>

text \<open>
  The two night checks read the current phase before they act: a call that follows a
  call that returned changes nothing and returns the same boolean.
\<close>

lemma checkEDSubmitted_repeat:
  assumes "checkEDSubmitted w = Inr (w1, b)"
  shows "checkEDSubmitted w1 = Inr (w1, b)"
proof -
  define edPlayers where "edPlayers = map fst (filter isEDPlayer (playersCol w))"
  define allSubmitted where "allSubmitted =
    (foldl (\<lambda>n d. if fst d \<in> set edPlayers then n + 1 else n) (0::nat) (nightActionsCol w)
       \<ge> length edPlayers)"
  show ?thesis
  proof (cases "allSubmitted")
    case False
    with assms show ?thesis
      by (simp add: checkEDSubmitted_def Let_def allSubmitted_def edPlayers_def)
  next
    case True
    show ?thesis
    proof (cases "currentPlayer w")
      case None
      with True assms show ?thesis
        by (simp add: checkEDSubmitted_def Let_def allSubmitted_def edPlayers_def)
    next
      case (Some cp)
      show ?thesis
      proof (cases "cpIsHost cp")
        case False
        with True Some assms show ?thesis
          by (simp add: checkEDSubmitted_def Let_def allSubmitted_def edPlayers_def)
      next
        case host: True
        show ?thesis
        proof (cases "gameStateDoc w")
          case None
          with True Some host assms show ?thesis
            by (simp add: checkEDSubmitted_def Let_def allSubmitted_def edPlayers_def getState_def)
        next
          case (Some g)
          show ?thesis
          proof (cases "phase g = NIGHT_SPECIAL")
            case False
            with True \<open>currentPlayer w = Some cp\<close> host Some assms show ?thesis
              by (simp add: checkEDSubmitted_def Let_def allSubmitted_def edPlayers_def
                  getState_def)
          next
            case ns: True
            have w1: "w1 = w\<lparr>gameStateDoc :=
                Some (mergeGameState (gameStateDoc w) NIGHT_IMPOSTOR (now w) (cpId cp) [])\<rparr>"
              and b: "b = True"
              using True \<open>currentPlayer w = Some cp\<close> host Some ns assms
              by (auto simp add: checkEDSubmitted_def Let_def allSubmitted_def edPlayers_def
                  getState_def setState_def andThen_def)
            show ?thesis
              using True \<open>currentPlayer w = Some cp\<close> host
              unfolding w1 b
              by (simp add: checkEDSubmitted_def Let_def allSubmitted_def edPlayers_def
                  getState_def mergeGameState_fields)
          qed
        qed
      qed
    qed
  qed
qed

lemma foldl_applyDeath_actions:
  "nightActionsCol (foldl (applyDeath pl d) w vs) = nightActionsCol w"
  by (induction vs arbitrary: w) (simp_all add: applyDeath_def)

lemma processMorning_result:
  assumes "currentPlayer w = Some cp" and "cpIsHost cp" and "processMorning w = Inr w1"
  shows "currentPlayer w1 = Some cp \<and> nightActionsCol w1 = nightActionsCol w
     \<and> (case roomDoc w of
           None \<Rightarrow> w1 = w
         | Some r \<Rightarrow> (\<exists>g. gameStateDoc w1 = Some g \<and> phase g = MORNING_ANNOUNCEMENT))"
  using assms
  by (auto simp add: processMorning_def Let_def setState_def foldl_applyDeath_frame
      foldl_applyDeath_actions mergeGameState_fields split: option.splits)

lemma checkImpostorSubmitted_repeat:
  assumes "checkImpostorSubmitted w = Inr (w1, b)"
  shows "checkImpostorSubmitted w1 = Inr (w1, b)"
proof -
  define submitted where "submitted =
    foldl (\<lambda>s d. if actionType (snd d) = ''impostor'' then True else s) False (nightActionsCol w)"
  show ?thesis
  proof (cases "submitted")
    case False
    with assms show ?thesis
      by (simp add: checkImpostorSubmitted_def Let_def submitted_def)
  next
    case True
    show ?thesis
    proof (cases "currentPlayer w")
      case None
      with True assms show ?thesis
        by (simp add: checkImpostorSubmitted_def Let_def submitted_def)
    next
      case (Some cp)
      show ?thesis
      proof (cases "cpIsHost cp")
        case False
        with True Some assms show ?thesis
          by (simp add: checkImpostorSubmitted_def Let_def submitted_def)
      next
        case host: True
        show ?thesis
        proof (cases "gameStateDoc w")
          case None
          with True Some host assms show ?thesis
            by (simp add: checkImpostorSubmitted_def Let_def submitted_def getState_def)
        next
          case (Some g)
          show ?thesis
          proof (cases "phase g = NIGHT_IMPOSTOR")
            case False
            with True \<open>currentPlayer w = Some cp\<close> host Some assms show ?thesis
              by (simp add: checkImpostorSubmitted_def Let_def submitted_def getState_def)
          next
            case ni: True
            have pm: "processMorning w = Inr w1" and b: "b = True"
              using True \<open>currentPlayer w = Some cp\<close> host Some ni assms
              by (auto simp add: checkImpostorSubmitted_def Let_def submitted_def getState_def
                  andThen_def split: sum.splits)
            note r = processMorning_result [OF \<open>currentPlayer w = Some cp\<close> host pm]
            show ?thesis
            proof (cases "roomDoc w")
              case None
              with r have "w1 = w" by simp
              with assms show ?thesis by simp
            next
              case (Some rm)
              with r obtain g1 where "gameStateDoc w1 = Some g1" "phase g1 = MORNING_ANNOUNCEMENT"
                by auto
              with r True host show ?thesis
                unfolding b
                by (simp add: checkImpostorSubmitted_def Let_def submitted_def getState_def)
            qed
          qed
        qed
      qed
    qed
  qed
qed

text \<open>
  The other two checks do not read the phase. When all players have confirmed their
  role, or all living players have voted and the vote is tied, a second call writes the
  state again.
\<close>

lemma checkAllPlayersReadRole_repeats:
  assumes "currentPlayer w = Some cp" and "cpIsHost cp" and "settingsDoc w = Some s"
    and "foldl (\<lambda>a d. if \<not> roleReadConfirmed (snd d) then False else a) True (playersCol w)"
  shows "\<exists>w1 w2 g1 g2. checkAllPlayersReadRole w = Inr (w1, True)
     \<and> checkAllPlayersReadRole w1 = Inr (w2, True)
     \<and> gameStateDoc w1 = Some g1 \<and> phase g1 = MEETING_DISCUSSION
     \<and> version g1 = storedVersion w + 1
     \<and> gameStateDoc w2 = Some g2 \<and> phase g2 = MEETING_DISCUSSION
     \<and> version g2 = storedVersion w + 2"
  using assms
  by (simp add: checkAllPlayersReadRole_def Let_def setState_def startMeetingTimer_def
      startTimer_def andThen_def mergeGameState_fields storedVersion_def split: option.splits)


lemma checkAllVoted_tie_repeats:
  assumes "currentPlayer w = Some cp" and "cpIsHost cp"
    and "length (filter (\<lambda>d. isAlive (snd d)) (playersCol w)) \<le> length (votesCol w)"
    and "tallyVotes (votesCol w) = (voteCount, maxVotes, targets)"
    and "length targets > 1"
  shows "\<exists>w1 w2 g1 g2. checkAllVoted w = Inr (w1, True) \<and> checkAllVoted w1 = Inr (w2, True)
     \<and> gameStateDoc w1 = Some g1 \<and> phase g1 = VOTE_RESULT \<and> version g1 = storedVersion w + 1
     \<and> gameStateDoc w2 = Some g2 \<and> phase g2 = VOTE_RESULT \<and> version g2 = storedVersion w + 2"
proof -
  let ?ad = "[(''result'', JString ''tie''), (''tiedPlayers'', JStringList targets),
              (''voteCounts'', JCounts voteCount)]"
  let ?w1 = "w\<lparr>gameStateDoc := Some (mergeGameState (gameStateDoc w) VOTE_RESULT (now w) (cpId cp) ?ad)\<rparr>"
  let ?w2 = "?w1\<lparr>gameStateDoc := Some (mergeGameState (gameStateDoc ?w1) VOTE_RESULT (now ?w1) (cpId cp) ?ad)\<rparr>"
  have p1: "processVotes w = Inr (?w1, Some (Tie targets))"
    using assms by (simp add: processVotes_tie)
  have h1: "currentPlayer ?w1 = Some cp" "tallyVotes (votesCol ?w1) = (voteCount, maxVotes, targets)"
    using assms by simp_all
  have p2: "processVotes ?w1 = Inr (?w2, Some (Tie targets))"
    using processVotes_tie [OF h1(1) assms(2) h1(2) assms(5)] .
  have c1: "checkAllVoted w = Inr (?w1, True)"
    using assms p1 by (simp add: checkAllVoted_def Let_def andThen_def)
  have c2: "checkAllVoted ?w1 = Inr (?w2, True)"
    using assms p2 by (simp add: checkAllVoted_def Let_def andThen_def)
  have v: "version (mergeGameState (gameStateDoc w) VOTE_RESULT (now w) (cpId cp) ?ad) = storedVersion w + 1"
    by (simp add: mergeGameState_fields storedVersion_def split: option.splits)
  show ?thesis
    using c1 c2 v by (simp add: mergeGameState_fields)
qed

text \<open>
  C7 on the code. In the room of five, where all five living players have voted and
  \<^verbatim>\<open>A\<close> and \<^verbatim>\<open>B\<close> are tied, two calls of checkAllVoted in succession both
  process the votes: the first writes VOTE_RESULT with version 8, and the second, with
  the phase already advanced, writes VOTE_RESULT again with version 9.
\<close>

theorem checkAllVoted_fires_twice:
  "\<exists>w1 w2 g1 g2. checkAllVoted (ballotWorld tiedVotes) = Inr (w1, True)
     \<and> checkAllVoted w1 = Inr (w2, True)
     \<and> gameStateDoc w1 = Some g1 \<and> phase g1 = VOTE_RESULT \<and> version g1 = 8
     \<and> gameStateDoc w2 = Some g2 \<and> phase g2 = VOTE_RESULT \<and> version g2 = 9"
proof -
  have h: "currentPlayer (ballotWorld tiedVotes) = Some hostAnn" "cpIsHost hostAnn"
    "length (filter (\<lambda>d. isAlive (snd d)) (playersCol (ballotWorld tiedVotes)))
       \<le> length (votesCol (ballotWorld tiedVotes))"
    "tallyVotes (votesCol (ballotWorld tiedVotes))
       = ([(''B'', 2), (''A'', 2), (''C'', 1)], 2, [''B'', ''A''])"
    "length [''B'', ''A''] > 1"
    by (simp_all add: ballotWorld_def roomOfFive_def hostAnn_def fivePlayers_def mkPlayer_def
        tiedVotes_def tallyVotes_def countVote_def pluralityStep_def)
  have v: "storedVersion (ballotWorld tiedVotes) = 7"
    by (simp add: storedVersion_def ballotWorld_def roomOfFive_def)
  from checkAllVoted_tie_repeats [OF h] show ?thesis
    by (simp add: v)
qed

end
